theory Spec2Isabelle
  imports Main "HOL-Library.Char_ord" "HOL-Library.List_Lexorder" "HOL-Library.Product_Lexorder"
begin

section \<open>Values, series and data frames\<close>

text \<open>
  A cell of a pandas frame. \<open>NaN\<close> stands for every missing marker (\<open>NaN\<close>, \<open>NaT\<close>);
  \<open>Text\<close> is a Python \<open>str\<close> whose code points lie below 256; \<open>Number\<close> is an integer
  value; \<open>Datetime y m d\<close> is a timestamp of a datetime column, of which the programs
  only read the year; \<open>Pydatetime y m d off\<close> is a \<open>datetime.datetime\<close> object held in
  an object column, with its UTC offset in minutes when it has one. Floating-point cells
  are left out.
\<close>

datatype cell = NaN | Text string | Number int | Datetime int int int
  | Pydatetime int int int "int option"

datatype error = KeyError | ValueError | AttributeError | TypeError
  | EmptyDataError | ParserError

type_synonym series = "cell list"

type_synonym row = "string \<Rightarrow> cell"

text \<open>
  A frame keeps its column labels in order and its rows in order; a row gives the cell
  under each label (only the labels in \<open>columns\<close> are meaningful).
\<close>

record dataframe =
  columns :: "string list"
  rows :: "row list"

definition bind :: "error + 'a \<Rightarrow> ('a \<Rightarrow> error + 'b) \<Rightarrow> error + 'b" where
  "bind m f = (case m of Inl e \<Rightarrow> Inl e | Inr x \<Rightarrow> f x)"

definition isna :: "cell \<Rightarrow> bool" where
  "isna c = (c = NaN)"

definition notna :: "cell \<Rightarrow> bool" where
  "notna c = (c \<noteq> NaN)"

text \<open>\<open>df[c]\<close>: the column as a series, \<open>KeyError\<close> when the label is absent.\<close>

definition getitem :: "dataframe \<Rightarrow> string \<Rightarrow> error + series" where
  "getitem df c =
     (if c \<in> set (columns df) then Inr (map (\<lambda>r. r c) (rows df)) else Inl KeyError)"

text \<open>\<open>df[c] = s\<close>: overwrite the column, or append it as the last column.\<close>

definition setitem :: "dataframe \<Rightarrow> string \<Rightarrow> series \<Rightarrow> error + dataframe" where
  "setitem df c s =
     (if length s \<noteq> length (rows df) then Inl ValueError
      else Inr \<lparr>columns = (if c \<in> set (columns df) then columns df else columns df @ [c]),
                rows = map2 (\<lambda>r v. r(c := v)) (rows df) s\<rparr>)"

definition fillna :: "cell \<Rightarrow> series \<Rightarrow> series" where
  "fillna v s = map (\<lambda>c. if isna c then v else c) s"

text \<open>
  \<open>df[c].fillna(v, inplace=True)\<close>: the series is a view of the frame's column, so the
  fill is written into the frame (pandas without copy-on-write).
\<close>

definition fillna_inplace :: "dataframe \<Rightarrow> string \<Rightarrow> cell \<Rightarrow> error + dataframe" where
  "fillna_inplace df c v = bind (getitem df c) (\<lambda>s. setitem df c (fillna v s))"

text \<open>\<open>df[mask]\<close> with a boolean series: the rows whose mask entry is true.\<close>

definition select_mask :: "dataframe \<Rightarrow> bool list \<Rightarrow> error + dataframe" where
  "select_mask df m =
     (if length m \<noteq> length (rows df) then Inl ValueError
      else Inr \<lparr>columns = columns df, rows = map fst (filter snd (zip (rows df) m))\<rparr>)"

text \<open>
  \<open>pd.to_datetime(s, errors='coerce')\<close> for a date parser that reads no UTC offsets. The
  date parser of the library is a parameter: \<open>parse c\<close> is the date read from a
  non-missing cell, \<open>None\<close> when it does not parse, and then \<open>errors='coerce'\<close> stores the
  missing marker. The result is a datetime column. \<open>to_datetime_offsets\<close> below is the
  conversion for a parser that also reads UTC offsets, and agrees with this one when it
  reads none.
\<close>

definition to_datetime :: "(cell \<Rightarrow> (int \<times> int \<times> int) option) \<Rightarrow> series \<Rightarrow> series" where
  "to_datetime parse s =
     map (\<lambda>c. case c of
                 NaN \<Rightarrow> NaN
               | Datetime y m d \<Rightarrow> Datetime y m d
               | _ \<Rightarrow> (case parse c of None \<Rightarrow> NaN | Some (y, m, d) \<Rightarrow> Datetime y m d)) s"

fun is_datetimelike :: "cell \<Rightarrow> bool" where
  "is_datetimelike NaN = True"
| "is_datetimelike (Datetime y m d) = True"
| "is_datetimelike _ = False"

fun year_of :: "cell \<Rightarrow> cell" where
  "year_of (Datetime y m d) = Number y"
| "year_of _ = NaN"

text \<open>
  \<open>s.dt.year\<close>: \<open>AttributeError\<close> unless the series is a datetime column; an object
  column of \<open>datetime.datetime\<close> objects has no \<open>.dt\<close> accessor.
\<close>

definition dt_year :: "series \<Rightarrow> error + series" where
  "dt_year s = (if list_all is_datetimelike s then Inr (map year_of s) else Inl AttributeError)"

text \<open>
  \<open>pd.to_datetime(s, errors='coerce')\<close> in general (pandas 1 and 2): the parser also
  gives the UTC offset in minutes that it read, \<open>None\<close> for a time without offset. When
  all parsed values have the same offset, or none has one, the result is a datetime
  column. When they differ, the result is an object column of \<open>datetime.datetime\<close>
  objects.
\<close>

definition to_datetime_offsets ::
  "(cell \<Rightarrow> ((int \<times> int \<times> int) \<times> int option) option) \<Rightarrow> series \<Rightarrow> series" where
  "to_datetime_offsets parse s =
     (let parsed = map (\<lambda>c. case c of
                               NaN \<Rightarrow> None
                             | Datetime y m d \<Rightarrow> Some ((y, m, d), None)
                             | _ \<Rightarrow> parse c) s;
          offsets = remdups (map snd (concat (map (\<lambda>p. case p of None \<Rightarrow> [] | Some v \<Rightarrow> [v])
                                                parsed)))
      in if length offsets \<le> 1
         then map (\<lambda>p. case p of None \<Rightarrow> NaN | Some ((y, m, d), off) \<Rightarrow> Datetime y m d) parsed
         else map (\<lambda>p. case p of None \<Rightarrow> NaN | Some ((y, m, d), off) \<Rightarrow> Pydatetime y m d off)
                parsed)"

section \<open>Python text primitives\<close>

text \<open>\<open>str.isspace\<close>, \<open>str.isalpha\<close> and \<open>str.lower\<close> on the code points below 256.\<close>

definition isspace_char :: "char \<Rightarrow> bool" where
  "isspace_char c = (let n = (of_char c :: nat) in
     (9 \<le> n \<and> n \<le> 13) \<or> (28 \<le> n \<and> n \<le> 32) \<or> n = 133 \<or> n = 160)"

definition isalpha_char :: "char \<Rightarrow> bool" where
  "isalpha_char c = (let n = (of_char c :: nat) in
     (65 \<le> n \<and> n \<le> 90) \<or> (97 \<le> n \<and> n \<le> 122) \<or> n = 170 \<or> n = 181 \<or> n = 186
     \<or> (192 \<le> n \<and> n \<le> 214) \<or> (216 \<le> n \<and> n \<le> 246) \<or> (248 \<le> n \<and> n \<le> 255))"

definition upper_chars :: string where
  "upper_chars = ''ABCDEFGHIJKLMNOPQRSTUVWXYZ'' @
     [CHR 0xC0, CHR 0xC1, CHR 0xC2, CHR 0xC3, CHR 0xC4, CHR 0xC5, CHR 0xC6, CHR 0xC7,
      CHR 0xC8, CHR 0xC9, CHR 0xCA, CHR 0xCB, CHR 0xCC, CHR 0xCD, CHR 0xCE, CHR 0xCF,
      CHR 0xD0, CHR 0xD1, CHR 0xD2, CHR 0xD3, CHR 0xD4, CHR 0xD5, CHR 0xD6,
      CHR 0xD8, CHR 0xD9, CHR 0xDA, CHR 0xDB, CHR 0xDC, CHR 0xDD, CHR 0xDE]"

definition lower_chars :: string where
  "lower_chars = ''abcdefghijklmnopqrstuvwxyz'' @
     [CHR 0xE0, CHR 0xE1, CHR 0xE2, CHR 0xE3, CHR 0xE4, CHR 0xE5, CHR 0xE6, CHR 0xE7,
      CHR 0xE8, CHR 0xE9, CHR 0xEA, CHR 0xEB, CHR 0xEC, CHR 0xED, CHR 0xEE, CHR 0xEF,
      CHR 0xF0, CHR 0xF1, CHR 0xF2, CHR 0xF3, CHR 0xF4, CHR 0xF5, CHR 0xF6,
      CHR 0xF8, CHR 0xF9, CHR 0xFA, CHR 0xFB, CHR 0xFC, CHR 0xFD, CHR 0xFE]"

definition lower_char :: "char \<Rightarrow> char" where
  "lower_char c = (case map_of (zip upper_chars lower_chars) c of None \<Rightarrow> c | Some d \<Rightarrow> d)"

definition lower :: "string \<Rightarrow> string" where
  "lower s = map lower_char s"

text \<open>\<open>s.isalpha()\<close>: false on the empty string.\<close>

definition isalpha :: "string \<Rightarrow> bool" where
  "isalpha s = (s \<noteq> [] \<and> list_all isalpha_char s)"

text \<open>
  \<open>s.split()\<close> with no separator: the maximal runs of non-whitespace characters.
  \<open>cur\<close> is the run being read.
\<close>

fun split_from :: "string \<Rightarrow> string \<Rightarrow> string list" where
  "split_from cur [] = (if cur = [] then [] else [cur])"
| "split_from cur (c # cs) =
     (if isspace_char c
      then (if cur = [] then split_from [] cs else cur # split_from [] cs)
      else split_from (cur @ [c]) cs)"

definition split :: "string \<Rightarrow> string list" where
  "split s = split_from [] s"

text \<open>\<open>sep.join(xs)\<close>.\<close>

fun join :: "string \<Rightarrow> string list \<Rightarrow> string" where
  "join sep [] = []"
| "join sep [x] = x"
| "join sep (x # y # ys) = x @ sep @ join sep (y # ys)"

fun digits :: "nat \<Rightarrow> string" where
  "digits n = (if n < 10 then [''0123456789'' ! n]
               else digits (n div 10) @ [''0123456789'' ! (n mod 10)])"

declare digits.simps [simp del]

definition zfill :: "nat \<Rightarrow> string \<Rightarrow> string" where
  "zfill k s = replicate (k - length s) (CHR ''0'') @ s"

definition str_int :: "int \<Rightarrow> string" where
  "str_int i = (if i < 0 then CHR ''-'' # digits (nat (- i)) else digits (nat i))"

text \<open>The UTC offset as \<open>str\<close> of a datetime shows it: \<open>+01:00\<close>, nothing without offset.\<close>

definition str_offset :: "int option \<Rightarrow> string" where
  "str_offset off = (case off of
       None \<Rightarrow> []
     | Some k \<Rightarrow> (if k < 0 then ''-'' else ''+'') @ zfill 2 (digits (nat \<bar>k\<bar> div 60)) @ '':'' @
                 zfill 2 (digits (nat \<bar>k\<bar> mod 60)))"

text \<open>\<open>str(x)\<close> of a cell: \<open>nan\<close> for the missing marker, the date and time of a timestamp.\<close>

fun str :: "cell \<Rightarrow> string" where
  "str NaN = ''nan''"
| "str (Text s) = s"
| "str (Number i) = str_int i"
| "str (Datetime y m d) =
     zfill 4 (str_int y) @ ''-'' @ zfill 2 (str_int m) @ ''-'' @ zfill 2 (str_int d) @ '' 00:00:00''"
| "str (Pydatetime y m d off) =
     zfill 4 (str_int y) @ ''-'' @ zfill 2 (str_int m) @ ''-'' @ zfill 2 (str_int d) @ '' 00:00:00''
     @ str_offset off"

section \<open>Cleaning and derived columns: \<open>prepare_data\<close>\<close>

text \<open>\<open>lambda x: len(str(x).split()) if pd.notna(x) else 0\<close>\<close>

definition word_count :: "cell \<Rightarrow> cell" where
  "word_count x = (if notna x then Number (int (length (split (str x)))) else Number 0)"

text \<open>
  \<open>prepare_data\<close> of the dashboard, which is also Part 2 of the batch script, with a
  date parser that reads no UTC offsets: every step is guarded by the presence of its
  column. \<open>prepare_data_offsets\<close> below is the same function with a parser that reads
  offsets.
\<close>

definition prepare_data ::
  "(cell \<Rightarrow> (int \<times> int \<times> int) option) \<Rightarrow> dataframe \<Rightarrow> error + dataframe" where
  "prepare_data parse df =
     bind (if ''abstract'' \<in> set (columns df)
           then fillna_inplace df ''abstract'' (Text '''') else Inr df) (\<lambda>df1.
     bind (if ''authors'' \<in> set (columns df1)
           then fillna_inplace df1 ''authors'' (Text ''Unknown'') else Inr df1) (\<lambda>df2.
     bind (if ''journal'' \<in> set (columns df2)
           then fillna_inplace df2 ''journal'' (Text ''Unknown'') else Inr df2) (\<lambda>df3.
     bind (if ''title'' \<in> set (columns df3)
           then bind (getitem df3 ''title'') (\<lambda>s. select_mask df3 (map notna s))
           else Inr df3) (\<lambda>df4.
     bind (if ''publish_time'' \<in> set (columns df4)
           then bind (getitem df4 ''publish_time'') (\<lambda>s.
                bind (setitem df4 ''publish_time'' (to_datetime parse s)) (\<lambda>d.
                bind (getitem d ''publish_time'') (\<lambda>t.
                bind (dt_year t) (\<lambda>ys. setitem d ''publication_year'' ys))))
           else Inr df4) (\<lambda>df5.
     bind (if ''abstract'' \<in> set (columns df5)
           then bind (getitem df5 ''abstract'') (\<lambda>s.
                setitem df5 ''abstract_word_count'' (map word_count s))
           else Inr df5) (\<lambda>df6.
     if ''title'' \<in> set (columns df6)
     then bind (getitem df6 ''title'') (\<lambda>s.
          setitem df6 ''title_word_count'' (map word_count s))
     else Inr df6))))))"

text \<open>
  \<open>prepare_data\<close> with a date parser that reads UTC offsets. The date step is
  \<open>df_cleaned['publish_time'] = pd.to_datetime(df_cleaned['publish_time'], errors='coerce')\<close>
  followed by \<open>df_cleaned['publication_year'] = df_cleaned['publish_time'].dt.year\<close>.
\<close>

definition prepare_data_offsets ::
  "(cell \<Rightarrow> ((int \<times> int \<times> int) \<times> int option) option) \<Rightarrow> dataframe \<Rightarrow> error + dataframe" where
  "prepare_data_offsets parse df =
     bind (if ''abstract'' \<in> set (columns df)
           then fillna_inplace df ''abstract'' (Text '''') else Inr df) (\<lambda>df1.
     bind (if ''authors'' \<in> set (columns df1)
           then fillna_inplace df1 ''authors'' (Text ''Unknown'') else Inr df1) (\<lambda>df2.
     bind (if ''journal'' \<in> set (columns df2)
           then fillna_inplace df2 ''journal'' (Text ''Unknown'') else Inr df2) (\<lambda>df3.
     bind (if ''title'' \<in> set (columns df3)
           then bind (getitem df3 ''title'') (\<lambda>s. select_mask df3 (map notna s))
           else Inr df3) (\<lambda>df4.
     bind (if ''publish_time'' \<in> set (columns df4)
           then bind (getitem df4 ''publish_time'') (\<lambda>s.
                bind (setitem df4 ''publish_time'' (to_datetime_offsets parse s)) (\<lambda>d.
                bind (getitem d ''publish_time'') (\<lambda>t.
                bind (dt_year t) (\<lambda>ys. setitem d ''publication_year'' ys))))
           else Inr df4) (\<lambda>df5.
     bind (if ''abstract'' \<in> set (columns df5)
           then bind (getitem df5 ''abstract'') (\<lambda>s.
                setitem df5 ''abstract_word_count'' (map word_count s))
           else Inr df5) (\<lambda>df6.
     if ''title'' \<in> set (columns df6)
     then bind (getitem df6 ''title'') (\<lambda>s.
          setitem df6 ''title_word_count'' (map word_count s))
     else Inr df6))))))"

section \<open>Cleaning as a function on rows\<close>

text \<open>
  The frame that \<open>prepare_data\<close> returns, written without the error plumbing: each
  step as a total function on frames, and the whole cleaning as one function applied to
  every surviving row. \<open>prepare_data_cleaned\<close> and \<open>rows_cleaned\<close> below prove that
  this is what the program computes.
\<close>

definition fill_col :: "string \<Rightarrow> cell \<Rightarrow> dataframe \<Rightarrow> dataframe" where
  "fill_col c v df = (if c \<in> set (columns df)
     then \<lparr>columns = columns df, rows = map (\<lambda>r. r(c := (if r c = NaN then v else r c))) (rows df)\<rparr>
     else df)"

definition drop_missing :: "string \<Rightarrow> dataframe \<Rightarrow> dataframe" where
  "drop_missing c df = (if c \<in> set (columns df)
     then \<lparr>columns = columns df, rows = filter (\<lambda>r. r c \<noteq> NaN) (rows df)\<rparr> else df)"

definition coerce_date :: "(cell \<Rightarrow> (int \<times> int \<times> int) option) \<Rightarrow> cell \<Rightarrow> cell" where
  "coerce_date parse c = (case c of NaN \<Rightarrow> NaN | Datetime y m d \<Rightarrow> Datetime y m d
      | _ \<Rightarrow> (case parse c of None \<Rightarrow> NaN | Some (y, m, d) \<Rightarrow> Datetime y m d))"

definition add_column :: "string \<Rightarrow> (row \<Rightarrow> cell) \<Rightarrow> dataframe \<Rightarrow> dataframe" where
  "add_column c f df = \<lparr>columns = (if c \<in> set (columns df) then columns df else columns df @ [c]),
      rows = map (\<lambda>r. r(c := f r)) (rows df)\<rparr>"

definition add_year :: "(cell \<Rightarrow> (int \<times> int \<times> int) option) \<Rightarrow> dataframe \<Rightarrow> dataframe" where
  "add_year parse df = (if ''publish_time'' \<in> set (columns df)
     then add_column ''publication_year'' (\<lambda>r. year_of (r ''publish_time''))
            (add_column ''publish_time'' (\<lambda>r. coerce_date parse (r ''publish_time'')) df)
     else df)"

definition add_count :: "string \<Rightarrow> string \<Rightarrow> dataframe \<Rightarrow> dataframe" where
  "add_count c c' df = (if c \<in> set (columns df)
     then add_column c' (\<lambda>r. word_count (r c)) df else df)"

definition cleaned :: "(cell \<Rightarrow> (int \<times> int \<times> int) option) \<Rightarrow> dataframe \<Rightarrow> dataframe" where
  "cleaned parse df =
     add_count ''title'' ''title_word_count''
       (add_count ''abstract'' ''abstract_word_count''
         (add_year parse
           (drop_missing ''title''
             (fill_col ''journal'' (Text ''Unknown'')
               (fill_col ''authors'' (Text ''Unknown'')
                 (fill_col ''abstract'' (Text '''') df))))))"

definition mk_row :: "(string \<times> cell) list \<Rightarrow> row" where
  "mk_row kvs = (\<lambda>c. case map_of kvs c of None \<Rightarrow> NaN | Some v \<Rightarrow> v)"

definition fill_row :: "string \<Rightarrow> cell \<Rightarrow> string list \<Rightarrow> row \<Rightarrow> row" where
  "fill_row c v cols r = (if c \<in> set cols then r(c := (if r c = NaN then v else r c)) else r)"

definition year_row :: "(cell \<Rightarrow> (int \<times> int \<times> int) option) \<Rightarrow> string list \<Rightarrow> row \<Rightarrow> row" where
  "year_row parse cols r = (if ''publish_time'' \<in> set cols
     then (r(''publish_time'' := coerce_date parse (r ''publish_time'')))
            (''publication_year'' := year_of (coerce_date parse (r ''publish_time'')))
     else r)"

definition count_row :: "string \<Rightarrow> string \<Rightarrow> string list \<Rightarrow> row \<Rightarrow> row" where
  "count_row c c' cols r = (if c \<in> set cols then r(c' := word_count (r c)) else r)"

definition clean_row :: "(cell \<Rightarrow> (int \<times> int \<times> int) option) \<Rightarrow> string list \<Rightarrow> row \<Rightarrow> row" where
  "clean_row parse cols r =
     count_row ''title'' ''title_word_count'' cols
       (count_row ''abstract'' ''abstract_word_count'' cols
         (year_row parse cols
           (fill_row ''journal'' (Text ''Unknown'') cols
             (fill_row ''authors'' (Text ''Unknown'') cols
               (fill_row ''abstract'' (Text '''') cols r)))))"

definition has_title :: "string list \<Rightarrow> row \<Rightarrow> bool" where
  "has_title cols r = (''title'' \<in> set cols \<longrightarrow> r ''title'' \<noteq> NaN)"

definition example_raw :: dataframe where
  "example_raw = \<lparr>columns = [''title'', ''abstract'', ''authors'', ''journal'', ''publish_time''],
     rows = [mk_row [(''title'', Text ''Novel Coronavirus Spread Patterns''),
                     (''abstract'', Text ''a b  c''), (''journal'', Text ''Lancet''),
                     (''publish_time'', Text ''2020-03-01'')],
             mk_row [(''abstract'', Text ''no title''), (''authors'', Text ''Roe''),
                     (''publish_time'', Text ''2021-01-15'')],
             mk_row [(''title'', Text ''Spread Dynamics Of Coronavirus''),
                     (''authors'', Text ''Doe''), (''publish_time'', Text ''soon'')]]\<rparr>"

definition example_parse :: "cell \<Rightarrow> (int \<times> int \<times> int) option" where
  "example_parse c = (if c = Text ''2020-03-01'' then Some (2020, 3, 1)
                      else if c = Text ''2021-01-15'' then Some (2021, 1, 15)
                      else if c = Text ''2018-06-30'' then Some (2018, 6, 30) else None)"


section \<open>Aggregations\<close>

text \<open>
  \<open>collections.Counter(xs)\<close>: a dictionary in insertion order, so an association list
  in the order in which the keys were first seen; each element adds one to its key.
\<close>

fun count_elem :: "'a \<Rightarrow> ('a \<times> nat) list \<Rightarrow> ('a \<times> nat) list" where
  "count_elem x [] = [(x, 1)]"
| "count_elem x ((y, n) # d) = (if x = y then (y, n + 1) # d else (y, n) # count_elem x d)"

definition Counter :: "'a list \<Rightarrow> ('a \<times> nat) list" where
  "Counter xs = foldl (\<lambda>d x. count_elem x d) [] xs"

text \<open>
  \<open>sorted(items, key=count, reverse=True)\<close>: a stable sort by decreasing count, so items
  with equal counts keep their order.
\<close>

definition sorted_by_count :: "('a \<times> nat) list \<Rightarrow> ('a \<times> nat) list" where
  "sorted_by_count d = sort_key (\<lambda>p. - int (snd p)) d"

text \<open>\<open>Counter.most_common(n)\<close>, which is \<open>heapq.nlargest(n, items, key=count)\<close>.\<close>

definition most_common :: "('a \<times> nat) list \<Rightarrow> nat \<Rightarrow> ('a \<times> nat) list" where
  "most_common d n = take n (sorted_by_count d)"

text \<open>
  \<open>s.value_counts()\<close>: missing values are dropped, the counts are in decreasing order.
  Values with equal counts are kept in first-seen order here; no property below relies
  on the order among equal counts.
\<close>

definition value_counts :: "series \<Rightarrow> (cell \<times> nat) list" where
  "value_counts s = sorted_by_count (Counter (filter notna s))"

definition head :: "nat \<Rightarrow> 'a list \<Rightarrow> 'a list" where
  "head n xs = take n xs"

fun is_number :: "cell \<Rightarrow> bool" where
  "is_number (Number i) = True"
| "is_number _ = False"

fun is_text :: "cell \<Rightarrow> bool" where
  "is_text (Text s) = True"
| "is_text _ = False"

fun is_datetime :: "cell \<Rightarrow> bool" where
  "is_datetime (Datetime y m d) = True"
| "is_datetime _ = False"

fun the_number :: "cell \<Rightarrow> int" where
  "the_number (Number i) = i"
| "the_number _ = 0"

fun the_text :: "cell \<Rightarrow> string" where
  "the_text (Text s) = s"
| "the_text _ = []"

fun the_date :: "cell \<Rightarrow> int \<times> int \<times> int" where
  "the_date (Datetime y m d) = (y, m, d)"
| "the_date _ = (0, 0, 0)"

text \<open>
  \<open>sort_index()\<close> of a counted series: ascending by label. Labels of one kind are
  ordered as Python orders them; labels of different kinds do not compare.
\<close>

definition sort_index :: "(cell \<times> nat) list \<Rightarrow> error + (cell \<times> nat) list" where
  "sort_index kv =
     (if list_all (\<lambda>p. is_number (fst p)) kv then Inr (sort_key (\<lambda>p. the_number (fst p)) kv)
      else if list_all (\<lambda>p. is_text (fst p)) kv then Inr (sort_key (\<lambda>p. the_text (fst p)) kv)
      else if list_all (\<lambda>p. is_datetime (fst p)) kv then Inr (sort_key (\<lambda>p. the_date (fst p)) kv)
      else Inl TypeError)"

text \<open>
  The analyses of Part 3 and of the dashboard tabs. Each is guarded by the presence of
  its column; \<open>None\<close> is the skipped analysis.
\<close>

definition papers_by_year :: "dataframe \<Rightarrow> error + (cell \<times> nat) list option" where
  "papers_by_year df =
     (if ''publication_year'' \<in> set (columns df)
      then bind (getitem df ''publication_year'') (\<lambda>s.
           bind (sort_index (value_counts s)) (\<lambda>r. Inr (Some r)))
      else Inr None)"

definition top_journals :: "dataframe \<Rightarrow> nat \<Rightarrow> error + (cell \<times> nat) list option" where
  "top_journals df n =
     (if ''journal'' \<in> set (columns df)
      then bind (getitem df ''journal'') (\<lambda>s. Inr (Some (head n (value_counts s))))
      else Inr None)"

definition top_sources :: "dataframe \<Rightarrow> error + (cell \<times> nat) list option" where
  "top_sources df =
     (if ''source_x'' \<in> set (columns df) \<or> ''source'' \<in> set (columns df)
      then bind (getitem df (if ''source_x'' \<in> set (columns df) then ''source_x'' else ''source''))
             (\<lambda>s. Inr (Some (head 10 (value_counts s))))
      else Inr None)"

definition stop_words :: "string list" where
  "stop_words = [''the'', ''a'', ''an'', ''and'', ''or'', ''but'', ''in'', ''on'', ''at'', ''to'',
     ''for'', ''of'', ''with'', ''by'', ''from'', ''as'', ''is'', ''was'', ''are'', ''be'', ''been'',
     ''covid'', ''19'', ''coronavirus'', ''sars'', ''cov'', ''covid-19'', ''novel'',
     ''new'', ''study'', ''research'', ''analysis'', ''case'', ''effect'', ''related'']"

text \<open>\<open>' '.join(s.astype(str)).lower()\<close>\<close>

definition all_titles :: "series \<Rightarrow> string" where
  "all_titles s = lower (join '' '' (map str s))"

text \<open>
  \<open>[word for word in all_titles.split()
     if word.isalpha() and len(word) > 3 and word not in stop_words]\<close>
\<close>

definition title_words :: "series \<Rightarrow> string list" where
  "title_words s =
     filter (\<lambda>word. isalpha word \<and> length word > 3 \<and> word \<notin> set stop_words)
       (split (all_titles s))"

definition top_words :: "dataframe \<Rightarrow> nat \<Rightarrow> error + (string \<times> nat) list option" where
  "top_words df n =
     (if ''title'' \<in> set (columns df)
      then bind (getitem df ''title'') (\<lambda>s.
           Inr (Some (most_common (Counter (title_words s)) n)))
      else Inr None)"

section \<open>The dashboard: filters and metrics\<close>

text \<open>
  Comparison of a series with an integer: false on a missing value, \<open>TypeError\<close> on
  text and on timestamps.
\<close>

fun sequence :: "(error + 'a) list \<Rightarrow> error + 'a list" where
  "sequence [] = Inr []"
| "sequence (x # xs) = bind x (\<lambda>y. bind (sequence xs) (\<lambda>ys. Inr (y # ys)))"

fun cell_ge :: "int \<Rightarrow> cell \<Rightarrow> error + bool" where
  "cell_ge k NaN = Inr False"
| "cell_ge k (Number i) = Inr (i \<ge> k)"
| "cell_ge k _ = Inl TypeError"

fun cell_le :: "int \<Rightarrow> cell \<Rightarrow> error + bool" where
  "cell_le k NaN = Inr False"
| "cell_le k (Number i) = Inr (i \<le> k)"
| "cell_le k _ = Inl TypeError"

definition series_ge :: "series \<Rightarrow> int \<Rightarrow> error + bool list" where
  "series_ge s k = sequence (map (cell_ge k) s)"

definition series_le :: "series \<Rightarrow> int \<Rightarrow> error + bool list" where
  "series_le s k = sequence (map (cell_le k) s)"

text \<open>
  \<open>df_cleaned[(df_cleaned['publication_year'] >= lo) & (df_cleaned['publication_year'] <= hi)]\<close>;
  without the column the view is the cleaned table.
\<close>

definition year_filter :: "int \<Rightarrow> int \<Rightarrow> dataframe \<Rightarrow> error + dataframe" where
  "year_filter lo hi df =
     (if ''publication_year'' \<in> set (columns df)
      then bind (getitem df ''publication_year'') (\<lambda>s1.
           bind (series_ge s1 lo) (\<lambda>m1.
           bind (getitem df ''publication_year'') (\<lambda>s2.
           bind (series_le s2 hi) (\<lambda>m2.
           select_mask df (map2 (\<and>) m1 m2)))))
      else Inr df)"

text \<open>
  The journal filter: \<open>df_filtered[df_filtered['journal'].isin(selected_journals)]\<close>
  when some journal is selected.
\<close>

definition journal_filter :: "cell list \<Rightarrow> dataframe \<Rightarrow> error + dataframe" where
  "journal_filter selected_journals df =
     (if ''journal'' \<in> set (columns df)
      then (if selected_journals \<noteq> []
            then bind (getitem df ''journal'') (\<lambda>s.
                 select_mask df (map (\<lambda>c. c \<in> set selected_journals) s))
            else Inr df)
      else Inr df)"

definition filtered_view :: "int \<Rightarrow> int \<Rightarrow> cell list \<Rightarrow> dataframe \<Rightarrow> error + dataframe" where
  "filtered_view lo hi selected_journals df =
     bind (year_filter lo hi df) (journal_filter selected_journals)"

text \<open>
  \<open>s.min()\<close> and \<open>s.max()\<close> skip missing values and give the missing marker on an empty
  series; values of different kinds do not compare.
\<close>

definition series_min :: "series \<Rightarrow> error + cell" where
  "series_min s = (case filter notna s of
       [] \<Rightarrow> Inr NaN
     | x # xs \<Rightarrow>
         if list_all is_number (x # xs) then Inr (Number (fold min (map the_number xs) (the_number x)))
         else if list_all is_text (x # xs) then Inr (Text (fold min (map the_text xs) (the_text x)))
         else if list_all is_datetime (x # xs)
         then Inr (case fold min (map the_date xs) (the_date x) of (y, m, d) \<Rightarrow> Datetime y m d)
         else Inl TypeError)"

definition series_max :: "series \<Rightarrow> error + cell" where
  "series_max s = (case filter notna s of
       [] \<Rightarrow> Inr NaN
     | x # xs \<Rightarrow>
         if list_all is_number (x # xs) then Inr (Number (fold max (map the_number xs) (the_number x)))
         else if list_all is_text (x # xs) then Inr (Text (fold max (map the_text xs) (the_text x)))
         else if list_all is_datetime (x # xs)
         then Inr (case fold max (map the_date xs) (the_date x) of (y, m, d) \<Rightarrow> Datetime y m d)
         else Inl TypeError)"

text \<open>
  \<open>int(x)\<close>: \<open>ValueError\<close> on the missing marker (a float NaN) and on text that is not
  an integer literal, \<open>TypeError\<close> on a timestamp. An integer literal is, between
  optional whitespace, an optional sign and decimal digits with single underscores
  allowed between digits.
\<close>

definition strip :: "string \<Rightarrow> string" where
  "strip s = rev (dropWhile isspace_char (rev (dropWhile isspace_char s)))"

definition is_digit :: "char \<Rightarrow> bool" where
  "is_digit c = (c \<in> set ''0123456789'')"

fun digit_groups :: "string \<Rightarrow> bool" where
  "digit_groups [] = False"
| "digit_groups [c] = is_digit c"
| "digit_groups (c # d # cs) =
     (is_digit c \<and> (if d = CHR ''_'' then digit_groups cs else digit_groups (d # cs)))"

definition digit_value :: "char \<Rightarrow> nat" where
  "digit_value c = length (takeWhile (\<lambda>d. d \<noteq> c) ''0123456789'')"

definition nat_of_digits :: "string \<Rightarrow> nat" where
  "nat_of_digits s = foldl (\<lambda>n c. 10 * n + digit_value c) 0 (filter is_digit s)"

definition int_of_text :: "string \<Rightarrow> error + int" where
  "int_of_text s =
     (let t = strip s;
          neg = (t \<noteq> [] \<and> hd t = CHR ''-'');
          body = (if t \<noteq> [] \<and> (hd t = CHR ''-'' \<or> hd t = CHR ''+'') then tl t else t)
      in if digit_groups body
         then Inr (if neg then - int (nat_of_digits body) else int (nat_of_digits body))
         else Inl ValueError)"

fun py_int :: "cell \<Rightarrow> error + int" where
  "py_int NaN = Inl ValueError"
| "py_int (Number i) = Inr i"
| "py_int (Text s) = int_of_text s"
| "py_int (Datetime y m d) = Inl TypeError"
| "py_int (Pydatetime y m d off) = Inl TypeError"

text \<open>
  The year-range metric of the overview tab:
  \<open>f"{int(df_filtered['publication_year'].min())}-{int(df_filtered['publication_year'].max())}"\<close>
\<close>

definition year_range_metric :: "dataframe \<Rightarrow> error + string option" where
  "year_range_metric df =
     (if ''publication_year'' \<in> set (columns df)
      then bind (getitem df ''publication_year'') (\<lambda>s1.
           bind (series_min s1) (\<lambda>lo.
           bind (py_int lo) (\<lambda>a.
           bind (getitem df ''publication_year'') (\<lambda>s2.
           bind (series_max s2) (\<lambda>hi.
           bind (py_int hi) (\<lambda>b.
           Inr (Some (str_int a @ ''-'' @ str_int b))))))))
      else Inr None)"

text \<open>
  The bounds of the year slider,
  \<open>int(df_cleaned['publication_year'].min())\<close> and \<open>int(df_cleaned['publication_year'].max())\<close>.
\<close>

definition year_bounds :: "dataframe \<Rightarrow> error + (int \<times> int) option" where
  "year_bounds df =
     (if ''publication_year'' \<in> set (columns df)
      then bind (getitem df ''publication_year'') (\<lambda>s1.
           bind (series_min s1) (\<lambda>lo.
           bind (py_int lo) (\<lambda>min_year.
           bind (getitem df ''publication_year'') (\<lambda>s2.
           bind (series_max s2) (\<lambda>hi.
           bind (py_int hi) (\<lambda>max_year.
           Inr (Some (min_year, max_year))))))))
      else Inr None)"

text \<open>
  \<open>words_list, counts_list = zip(*top_words)\<close>: with no pair, \<open>zip()\<close> yields nothing and
  the unpacking into two names raises \<open>ValueError\<close>.
\<close>

definition unzip_pairs :: "('a \<times> 'b) list \<Rightarrow> error + ('a list \<times> 'b list)" where
  "unzip_pairs ps = (if ps = [] then Inl ValueError else Inr (map fst ps, map snd ps))"

text \<open>The word analysis tab, up to the data handed to the bar chart.\<close>

definition word_analysis :: "dataframe \<Rightarrow> nat \<Rightarrow> error + (string list \<times> nat list) option" where
  "word_analysis df num_words =
     (if ''title'' \<in> set (columns df)
      then bind (getitem df ''title'') (\<lambda>s.
           bind (unzip_pairs (most_common (Counter (title_words s)) num_words)) (\<lambda>p.
           Inr (Some p)))
      else Inr None)"

definition in_year_range :: "int \<Rightarrow> int \<Rightarrow> cell \<Rightarrow> bool" where
  "in_year_range lo hi c = (case c of Number y \<Rightarrow> lo \<le> y \<and> y \<le> hi | _ \<Rightarrow> False)"

definition example_gap :: dataframe where
  "example_gap = \<lparr>columns = [''title'', ''journal'', ''publish_time''],
     rows = [mk_row [(''title'', Text ''Early Outbreak Report''), (''journal'', Text ''Lancet''),
                     (''publish_time'', Text ''2018-06-30'')],
             mk_row [(''title'', Text ''Later Outbreak Report''), (''journal'', Text ''Nature''),
                     (''publish_time'', Text ''2020-03-01'')]]\<rparr>"

fun first_seen :: "'a list \<Rightarrow> 'a list" where
  "first_seen [] = []"
| "first_seen (x # xs) = x # removeAll x (first_seen xs)"

definition count_of :: "('a \<times> nat) list \<Rightarrow> 'a \<Rightarrow> nat" where
  "count_of d w = (case map_of d w of None \<Rightarrow> 0 | Some c \<Rightarrow> c)"

definition example_titles :: dataframe where
  "example_titles = \<lparr>columns = [''title''],
     rows = [mk_row [(''title'', Text ''Novel Coronavirus Spread Patterns'')],
             mk_row [(''title'', Text ''Spread Dynamics Of Coronavirus'')]]\<rparr>"

definition example_years :: dataframe where
  "example_years = \<lparr>columns = [''publication_year''],
     rows = [mk_row [(''publication_year'', Number 2020)],
             mk_row [(''publication_year'', Number 2020)],
             mk_row [(''publication_year'', Number 2021)]]\<rparr>"

definition example_sources :: dataframe where
  "example_sources = \<lparr>columns = [''source_x'', ''source''],
     rows = [mk_row [(''source_x'', Text ''PMC''), (''source'', Text ''A'')],
             mk_row [(''source_x'', Text ''WHO''), (''source'', Text ''B'')],
             mk_row [(''source_x'', Text ''PMC''), (''source'', Text ''B'')],
             mk_row [(''source'', Text ''B'')]]\<rparr>"

section \<open>Frames as objects in a store\<close>

text \<open>
  Python names refer to frame objects. A store holds the frame under each address and the
  next unused address. \<open>df.copy()\<close> and \<open>df[mask]\<close> create a new object; \<open>fillna\<close> with
  \<open>inplace=True\<close> and the assignment \<open>df[c] = s\<close> change the object they are applied to.
\<close>

record store =
  frames :: "nat \<Rightarrow> dataframe"
  next_free :: nat



text \<open>An operation that changes the object at \<open>a\<close> in place.\<close>

definition update_at ::
  "store \<Rightarrow> nat \<Rightarrow> (dataframe \<Rightarrow> error + dataframe) \<Rightarrow> error + store" where
  "update_at s a f =
     bind (f (frames s a)) (\<lambda>df. Inr \<lparr>frames = (frames s)(a := df), next_free = next_free s\<rparr>)"


definition put :: "store \<Rightarrow> nat \<Rightarrow> dataframe \<Rightarrow> store" where
  "put s a df = \<lparr>frames = (frames s)(a := df), next_free = next_free s\<rparr>"

definition example_store :: store where
  "example_store = \<lparr>frames = (\<lambda>a. example_raw), next_free = 1\<rparr>"

text \<open>A parser without offsets, as a parser that reads offsets and finds none.\<close>

definition no_offset ::
  "(cell \<Rightarrow> (int \<times> int \<times> int) option) \<Rightarrow> cell \<Rightarrow> ((int \<times> int \<times> int) \<times> int option) option" where
  "no_offset parse c = map_option (\<lambda>d. (d, None)) (parse c)"

text \<open>The offsets that the conversion compares: those of the cells that parse.\<close>

definition parsed_offsets ::
  "(cell \<Rightarrow> ((int \<times> int \<times> int) \<times> int option) option) \<Rightarrow> series \<Rightarrow> int option list" where
  "parsed_offsets parse s =
     remdups (map snd (concat (map (\<lambda>p. case p of None \<Rightarrow> [] | Some v \<Rightarrow> [v])
       (map (\<lambda>c. case c of NaN \<Rightarrow> None | Datetime y m d \<Rightarrow> Some ((y, m, d), None)
                  | _ \<Rightarrow> parse c) s))))"

definition example_mixed :: dataframe where
  "example_mixed = \<lparr>columns = [''title'', ''publish_time''],
     rows = [mk_row [(''title'', Text ''Early Outbreak Report''),
                     (''publish_time'', Text ''2020-03-01T00:00:00+01:00'')],
             mk_row [(''title'', Text ''Later Outbreak Report''),
                     (''publish_time'', Text ''2020-03-02T00:00:00+02:00'')]]\<rparr>"

definition example_offset_parse :: "cell \<Rightarrow> ((int \<times> int \<times> int) \<times> int option) option" where
  "example_offset_parse c =
     (if c = Text ''2020-03-01T00:00:00+01:00'' then Some ((2020, 3, 1), Some 60)
      else if c = Text ''2020-03-02T00:00:00+02:00'' then Some ((2020, 3, 2), Some 120)
      else None)"

text \<open>The \<open>publish_time\<close> cells that reach the date step: those of the rows with a title.\<close>

definition kept_times :: "dataframe \<Rightarrow> series" where
  "kept_times df = map (\<lambda>r. r ''publish_time'') (filter (has_title (columns df)) (rows df))"

section \<open>The CSV export and the loader\<close>

text \<open>
  The characters of the default CSV dialect: comma, double quote, line feed, carriage
  return, and the blanks (space and tab) that make a line count as empty for the reader.
\<close>

definition comma :: char where "comma = CHR '',''"
definition quote :: char where "quote = CHR 0x22"
definition LF :: char where "LF = CHR 0x0A"
definition CR :: char where "CR = CHR 0x0D"

definition is_blank :: "char \<Rightarrow> bool" where
  "is_blank c = (c = CHR '' '' \<or> c = CHR 0x09)"

text \<open>
  \<open>csv.writer\<close> with minimal quoting, as \<open>to_csv\<close> uses it: a field is quoted when it
  holds a comma, a quote or a line break, quotes inside are doubled, and a record that is
  one empty field is written as two quotes. Records end with a line feed.
\<close>

definition needs_quotes :: "string \<Rightarrow> bool" where
  "needs_quotes f = (\<exists>c \<in> set f. c = comma \<or> c = quote \<or> c = LF \<or> c = CR)"

definition double_quotes :: "string \<Rightarrow> string" where
  "double_quotes f = concat (map (\<lambda>c. if c = quote then [quote, quote] else [c]) f)"

definition write_field :: "string \<Rightarrow> string" where
  "write_field f = (if needs_quotes f then [quote] @ double_quotes f @ [quote] else f)"

definition writerow :: "string list \<Rightarrow> string" where
  "writerow fs = (if fs = [[]] then [quote, quote] else join [comma] (map write_field fs)) @ [LF]"

text \<open>
  The text of a cell in the export: empty for a missing value. (Year columns that hold a
  missing value are floats in pandas and are written as \<open>2020.0\<close>; the model has integers
  only, which does not change the number of records or the header.)
\<close>

fun csv_field :: "cell \<Rightarrow> string" where
  "csv_field NaN = []"
| "csv_field c = str c"

text \<open>\<open>df.to_csv(index=False)\<close>: the header record, then one record per row.\<close>

definition to_csv :: "dataframe \<Rightarrow> string" where
  "to_csv df = concat (map writerow
     (columns df # map (\<lambda>r. map (\<lambda>c. csv_field (r c)) (columns df)) (rows df)))"

text \<open>\<open>df[cols]\<close> with a list of labels.\<close>

definition getitems :: "dataframe \<Rightarrow> string list \<Rightarrow> error + dataframe" where
  "getitems df cols =
     (if set cols \<subseteq> set (columns df) then Inr \<lparr>columns = cols, rows = rows df\<rparr>
      else Inl KeyError)"

definition available_cols :: "string list" where
  "available_cols = [''title'', ''abstract'', ''authors'', ''journal'', ''publication_year'',
     ''abstract_word_count'']"

definition display_cols :: "dataframe \<Rightarrow> string list" where
  "display_cols df = filter (\<lambda>col. col \<in> set (columns df)) available_cols"

text \<open>The content of the download button: \<open>df_filtered[display_cols].to_csv(index=False)\<close>\<close>

definition download_csv :: "dataframe \<Rightarrow> error + string" where
  "download_csv df = bind (getitems df (display_cols df)) (\<lambda>d. Inr (to_csv d))"

text \<open>
  The tokenizer of \<open>read_csv\<close> for the default options, one character at a time. Lines
  that are empty or hold only blanks are skipped. A field that starts with a quote runs
  to the closing quote, a doubled quote inside standing for one quote. A carriage return
  outside quotes ends the line, with a following line feed. \<open>cur\<close> is the field being
  read (in \<open>WhitespaceLine\<close> the blanks seen so far), \<open>row\<close> the fields of the record
  read before it.
\<close>

datatype tok_state = StartRecord | AfterCR | WhitespaceLine | StartField | InField
  | InQuotedField | QuoteInQuotedField

text \<open>What one character does: the next state, field and record, and the record it ends.\<close>

definition start_field ::
  "string list \<Rightarrow> char \<Rightarrow> tok_state \<times> string \<times> string list \<times> string list option" where
  "start_field row c =
     (if c = LF then (StartRecord, [], [], Some (row @ [[]]))
      else if c = CR then (AfterCR, [], [], Some (row @ [[]]))
      else if c = quote then (InQuotedField, [], row, None)
      else if c = comma then (StartField, [], row @ [[]], None)
      else (InField, [c], row, None))"

definition in_field ::
  "string \<Rightarrow> string list \<Rightarrow> char \<Rightarrow> tok_state \<times> string \<times> string list \<times> string list option" where
  "in_field cur row c =
     (if c = LF then (StartRecord, [], [], Some (row @ [cur]))
      else if c = CR then (AfterCR, [], [], Some (row @ [cur]))
      else if c = comma then (StartField, [], row @ [cur], None)
      else (InField, cur @ [c], row, None))"

definition start_record ::
  "char \<Rightarrow> tok_state \<times> string \<times> string list \<times> string list option" where
  "start_record c =
     (if c = LF then (StartRecord, [], [], None)
      else if c = CR then (AfterCR, [], [], None)
      else if is_blank c then (WhitespaceLine, [c], [], None)
      else start_field [] c)"

fun step ::
  "tok_state \<Rightarrow> string \<Rightarrow> string list \<Rightarrow> char \<Rightarrow>
   tok_state \<times> string \<times> string list \<times> string list option" where
  "step StartRecord cur row c = start_record c"
| "step AfterCR cur row c = (if c = LF then (StartRecord, [], [], None) else start_record c)"
| "step WhitespaceLine cur row c =
     (if c = LF then (StartRecord, [], [], None)
      else if c = CR then (AfterCR, [], [], None)
      else if is_blank c then (WhitespaceLine, cur @ [c], [], None)
      else in_field cur [] c)"
| "step StartField cur row c = start_field row c"
| "step InField cur row c = in_field cur row c"
| "step InQuotedField cur row c =
     (if c = quote then (QuoteInQuotedField, cur, row, None)
      else (InQuotedField, cur @ [c], row, None))"
| "step QuoteInQuotedField cur row c =
     (if c = quote then (InQuotedField, cur @ [quote], row, None) else in_field cur row c)"

text \<open>The end of the input: an open record is ended, an open quote is an error.\<close>

fun finish :: "tok_state \<Rightarrow> string \<Rightarrow> string list \<Rightarrow> error + string list list" where
  "finish StartRecord cur row = Inr []"
| "finish AfterCR cur row = Inr []"
| "finish WhitespaceLine cur row = Inr []"
| "finish InQuotedField cur row = Inl ParserError"
| "finish st cur row = Inr [row @ [cur]]"

fun tokenize :: "tok_state \<Rightarrow> string \<Rightarrow> string list \<Rightarrow> string \<Rightarrow> error + string list list" where
  "tokenize st cur row [] = finish st cur row"
| "tokenize st cur row (c # cs) =
     (case step st cur row c of
        (st', cur', row', out) \<Rightarrow>
          bind (tokenize st' cur' row' cs) (\<lambda>recs.
            Inr (case out of None \<Rightarrow> recs | Some r \<Rightarrow> r # recs)))"

text \<open>The strings that \<open>read_csv\<close> reads as a missing value.\<close>

definition na_values :: "string list" where
  "na_values = ['''', ''#N/A'', ''#N/A N/A'', ''#NA'', ''-1.#IND'', ''-1.#QNAN'', ''-NaN'', ''-nan'',
     ''1.#IND'', ''1.#QNAN'', ''<NA>'', ''N/A'', ''NA'', ''NULL'', ''NaN'', ''None'', ''n/a'', ''nan'',
     ''null'']"

definition read_field :: "string \<Rightarrow> cell" where
  "read_field f = (if f \<in> set na_values then NaN else Text f)"

text \<open>A record under a header: missing trailing fields are missing values.\<close>

definition read_row :: "string list \<Rightarrow> string list \<Rightarrow> row" where
  "read_row header fs = (\<lambda>c. case map_of (zip header fs) c of None \<Rightarrow> NaN | Some f \<Rightarrow> read_field f)"

text \<open>
  \<open>pd.read_csv(text)\<close>: the first record is the header, the others are the rows. No
  record at all is \<open>EmptyDataError\<close>; a record with more fields than the header is
  \<open>ParserError\<close>. Cells are read back as text or missing; the number columns that pandas
  infers, its renaming of repeated or empty header names and its reading of a longer
  first row as an index are outside this model.
\<close>

definition read_csv :: "string \<Rightarrow> error + dataframe" where
  "read_csv text =
     bind (tokenize StartRecord [] [] text) (\<lambda>recs.
       case recs of
         [] \<Rightarrow> Inl EmptyDataError
       | header # body \<Rightarrow>
           if list_all (\<lambda>fs. length fs \<le> length header) body
           then Inr \<lparr>columns = header, rows = map (read_row header) body\<rparr>
           else Inl ParserError)"

text \<open>
  \<open>load_data\<close> of the dashboard on a file system: \<open>None\<close> when \<open>metadata.csv\<close> does not
  exist (the function reports it and returns \<open>None\<close>); other errors are not caught.
\<close>

definition load_data :: "(string \<Rightarrow> string option) \<Rightarrow> error + dataframe option" where
  "load_data files =
     (case files ''metadata.csv'' of
        None \<Rightarrow> Inr None
      | Some text \<Rightarrow> bind (read_csv text) (\<lambda>df. Inr (Some df)))"

text \<open>
  The round trip of the export: the download is saved as \<open>metadata.csv\<close> and loaded
  again. The shape of a table is its number of rows and its column labels.
\<close>

definition round_trip :: "dataframe \<Rightarrow> error + dataframe option" where
  "round_trip df =
     bind (download_csv df) (\<lambda>text.
       load_data (\<lambda>path. if path = ''metadata.csv'' then Some text else None))"

definition shape :: "dataframe \<Rightarrow> nat \<times> string list" where
  "shape df = (length (rows df), columns df)"

definition round_trip_shape :: "dataframe \<Rightarrow> error + (nat \<times> string list) option" where
  "round_trip_shape df = bind (round_trip df) (\<lambda>t. Inr (map_option shape t))"

text \<open>A text of blanks only, which alone on a line makes the reader skip the line.\<close>

definition blank_text :: "string \<Rightarrow> bool" where
  "blank_text f = (f \<noteq> [] \<and> list_all is_blank f)"

text \<open>Characters that the writer leaves unquoted, and a record put before a result.\<close>

definition plain :: "char \<Rightarrow> bool" where
  "plain c = (c \<noteq> comma \<and> c \<noteq> quote \<and> c \<noteq> LF \<and> c \<noteq> CR)"

definition emit :: "string list \<Rightarrow> error + string list list \<Rightarrow> error + string list list" where
  "emit r m = bind m (\<lambda>recs. Inr (r # recs))"

text \<open>A table with a journal column only, whose one journal is a blank.\<close>

definition example_blank :: dataframe where
  "example_blank = \<lparr>columns = [''journal''], rows = [mk_row [(''journal'', Text '' '')]]\<rparr>"

section \<open>Properties\<close>

lemma bind_Inr: "bind (Inr x) f = f x"
  by (simp add: bind_def)

lemma map2_upd: "map2 (\<lambda>r v. r(c := v)) rs (map f rs) = map (\<lambda>r. r(c := f r)) rs"
  by (induction rs) auto

lemma setitem_map: "setitem df c (map f (rows df)) = Inr (add_column c f df)"
  by (simp add: setitem_def add_column_def map2_upd)

lemma fill_step:
  "(if c \<in> set (columns df) then fillna_inplace df c v else Inr df) = Inr (fill_col c v df)"
proof (cases "c \<in> set (columns df)")
  case True
  have "setitem df c (map (\<lambda>r. if r c = NaN then v else r c) (rows df)) =
        Inr (add_column c (\<lambda>r. if r c = NaN then v else r c) df)"
    by (rule setitem_map)
  with True show ?thesis
    by (simp add: fillna_inplace_def getitem_def bind_def fillna_def isna_def fill_col_def
        add_column_def comp_def)
next
  case False
  then show ?thesis by (simp add: fill_col_def)
qed

lemma filter_mask: "map fst (filter snd (zip rs (map p rs))) = filter p rs"
  by (induction rs) auto

lemma drop_step:
  "(if c \<in> set (columns df)
    then bind (getitem df c) (\<lambda>s. select_mask df (map notna s)) else Inr df)
   = Inr (drop_missing c df)"
  using filter_mask [of "rows df" "\<lambda>r. notna (r c)"]
  by (simp add: getitem_def bind_def select_mask_def drop_missing_def notna_def comp_def)

lemma datetimelike_coerce: "is_datetimelike (coerce_date parse c)"
  by (cases c) (auto simp: coerce_date_def split: option.splits)

lemma year_step:
  "(if ''publish_time'' \<in> set (columns df)
    then bind (getitem df ''publish_time'') (\<lambda>s.
         bind (setitem df ''publish_time'' (to_datetime parse s)) (\<lambda>d.
         bind (getitem d ''publish_time'') (\<lambda>t.
         bind (dt_year t) (\<lambda>ys. setitem d ''publication_year'' ys))))
    else Inr df) = Inr (add_year parse df)"
proof (cases "''publish_time'' \<in> set (columns df)")
  case True
  let ?d = "add_column ''publish_time'' (\<lambda>r. coerce_date parse (r ''publish_time'')) df"
  have a: "setitem df ''publish_time'' (to_datetime parse (map (\<lambda>r. r ''publish_time'') (rows df)))
           = Inr ?d"
    using setitem_map [of df "''publish_time''" "\<lambda>r. coerce_date parse (r ''publish_time'')"]
    by (simp add: to_datetime_def coerce_date_def comp_def)
  have b: "getitem ?d ''publish_time'' = Inr (map (\<lambda>r. coerce_date parse (r ''publish_time'')) (rows df))"
    using True by (simp add: getitem_def add_column_def comp_def)
  have c: "dt_year (map (\<lambda>r. coerce_date parse (r ''publish_time'')) (rows df))
           = Inr (map (\<lambda>r. year_of (r ''publish_time'')) (rows ?d))"
    by (simp add: dt_year_def list_all_iff datetimelike_coerce add_column_def comp_def)
  have d: "setitem ?d ''publication_year'' (map (\<lambda>r. year_of (r ''publish_time'')) (rows ?d))
           = Inr (add_column ''publication_year'' (\<lambda>r. year_of (r ''publish_time'')) ?d)"
    by (rule setitem_map)
  have g: "getitem df ''publish_time'' = Inr (map (\<lambda>r. r ''publish_time'') (rows df))"
    using True by (simp add: getitem_def)
  have e: "add_year parse df =
           add_column ''publication_year'' (\<lambda>r. year_of (r ''publish_time'')) ?d"
    using True by (simp add: add_year_def)
  from True show ?thesis
    by (simp only: g a b c d e bind_Inr if_True)
next
  case False
  then show ?thesis by (simp add: add_year_def)
qed

lemma count_step:
  "(if c \<in> set (columns df)
    then bind (getitem df c) (\<lambda>s. setitem df c' (map word_count s)) else Inr df)
   = Inr (add_count c c' df)"
  using setitem_map [of df c' "\<lambda>r. word_count (r c)"]
  by (simp add: getitem_def bind_def add_count_def comp_def)

lemma prepare_data_cleaned: "prepare_data parse df = Inr (cleaned parse df)"
  unfolding prepare_data_def cleaned_def
  by (simp only: fill_step drop_step year_step count_step bind_Inr)



lemma split_from_tokens:
  "list_all (\<lambda>c. \<not> isspace_char c) cur \<Longrightarrow>
   list_all (\<lambda>x. x \<noteq> [] \<and> list_all (\<lambda>c. \<not> isspace_char c) x) (split_from cur s)"
  by (induction s arbitrary: cur) simp_all

lemma split_blank: "\<forall>c \<in> set ws. isspace_char c \<Longrightarrow> split_from [] ws = []"
  by (induction ws) auto




lemma concat_split_from:
  "concat (split_from cur s) = cur @ filter (\<lambda>c. \<not> isspace_char c) s"
  by (induction s arbitrary: cur) auto

lemma columns_fill_col: "columns (fill_col c v df) = columns df"
  by (simp add: fill_col_def)

lemma rows_fill_col: "rows (fill_col c v df) = map (fill_row c v (columns df)) (rows df)"
  by (simp add: fill_col_def fill_row_def [abs_def])

lemma columns_drop_missing: "columns (drop_missing c df) = columns df"
  by (simp add: drop_missing_def)

lemma rows_drop_missing:
  "rows (drop_missing c df) = filter (\<lambda>r. c \<in> set (columns df) \<longrightarrow> r c \<noteq> NaN) (rows df)"
  by (simp add: drop_missing_def)

lemma mem_columns_add_year:
  "c \<in> set (columns (add_year parse df)) \<longleftrightarrow>
   c \<in> set (columns df) \<or> (c = ''publication_year'' \<and> ''publish_time'' \<in> set (columns df))"
  by (auto simp: add_year_def add_column_def)

lemma rows_add_year: "rows (add_year parse df) = map (year_row parse (columns df)) (rows df)"
  by (simp add: add_year_def add_column_def year_row_def [abs_def])

lemma mem_columns_add_count:
  "x \<in> set (columns (add_count c c' df)) \<longleftrightarrow>
   x \<in> set (columns df) \<or> (x = c' \<and> c \<in> set (columns df))"
  by (auto simp: add_count_def add_column_def)

lemma rows_add_count:
  "rows (add_count c c' df) = map (count_row c c' (columns df)) (rows df)"
  by (simp add: add_count_def add_column_def count_row_def [abs_def])

lemma count_row_cong:
  "(c \<in> set cols \<longleftrightarrow> c \<in> set cols') \<Longrightarrow> count_row c c' cols = count_row c c' cols'"
  by (simp add: count_row_def fun_eq_iff)

lemma fill_row_title: "c \<noteq> ''title'' \<Longrightarrow> fill_row c v cols r ''title'' = r ''title''"
  by (simp add: fill_row_def)

lemma rows_cleaned:
  "rows (cleaned parse df) =
   map (clean_row parse (columns df)) (filter (has_title (columns df)) (rows df))"
proof -
  let ?f = "\<lambda>r. fill_row ''journal'' (Text ''Unknown'') (columns df)
             (fill_row ''authors'' (Text ''Unknown'') (columns df)
               (fill_row ''abstract'' (Text '''') (columns df) r))"
  let ?d3 = "fill_col ''journal'' (Text ''Unknown'')
               (fill_col ''authors'' (Text ''Unknown'') (fill_col ''abstract'' (Text '''') df))"
  let ?d4 = "drop_missing ''title'' ?d3"
  let ?d5 = "add_year parse ?d4"
  let ?d6 = "add_count ''abstract'' ''abstract_word_count'' ?d5"
  have c3: "columns ?d3 = columns df" by (simp add: columns_fill_col)
  have r3: "rows ?d3 = map ?f (rows df)" by (simp add: rows_fill_col columns_fill_col)
  have t: "\<And>r. ?f r ''title'' = r ''title''" by (simp add: fill_row_title)
  have c4: "columns ?d4 = columns df" by (simp add: columns_drop_missing c3)
  have r4: "rows ?d4 = map ?f (filter (has_title (columns df)) (rows df))"
    by (simp add: rows_drop_missing c3 r3 filter_map comp_def t has_title_def [abs_def])
  have r5: "rows ?d5 = map (year_row parse (columns df)) (rows ?d4)"
    by (simp only: rows_add_year c4)
  have m5: "''abstract'' \<in> set (columns ?d5) \<longleftrightarrow> ''abstract'' \<in> set (columns df)"
    by (simp only: mem_columns_add_year c4) simp
  have r6: "rows ?d6 = map (count_row ''abstract'' ''abstract_word_count'' (columns df)) (rows ?d5)"
    by (simp only: rows_add_count count_row_cong [OF m5])
  have m6: "''title'' \<in> set (columns ?d6) \<longleftrightarrow> ''title'' \<in> set (columns df)"
    by (simp only: mem_columns_add_count mem_columns_add_year c4) simp
  have r7: "rows (cleaned parse df) =
            map (count_row ''title'' ''title_word_count'' (columns df)) (rows ?d6)"
    unfolding cleaned_def by (simp only: rows_add_count count_row_cong [OF m6])
  show ?thesis
    by (simp only: r7 r6 r5 r4 map_map clean_row_def [abs_def] comp_def)
qed

lemma mem_columns_cleaned:
  "c \<in> set (columns (cleaned parse df)) \<longleftrightarrow>
     c \<in> set (columns df)
   \<or> (c = ''publication_year'' \<and> ''publish_time'' \<in> set (columns df))
   \<or> (c = ''abstract_word_count'' \<and> ''abstract'' \<in> set (columns df))
   \<or> (c = ''title_word_count'' \<and> ''title'' \<in> set (columns df))"
  unfolding cleaned_def
  by (simp only: mem_columns_add_count mem_columns_add_year columns_drop_missing
      columns_fill_col) auto

lemma fill_row_other: "c \<noteq> x \<Longrightarrow> fill_row c v cols r x = r x"
  by (simp add: fill_row_def)

lemma fill_row_same:
  "c \<in> set cols \<Longrightarrow> fill_row c v cols r c = (if r c = NaN then v else r c)"
  by (simp add: fill_row_def)

lemma year_row_other:
  "x \<noteq> ''publish_time'' \<Longrightarrow> x \<noteq> ''publication_year'' \<Longrightarrow> year_row parse cols r x = r x"
  by (simp add: year_row_def)

lemma year_row_year:
  "''publish_time'' \<in> set cols \<Longrightarrow>
   year_row parse cols r ''publication_year'' = year_of (coerce_date parse (r ''publish_time''))"
  by (simp add: year_row_def)

lemma year_row_time:
  "''publish_time'' \<in> set cols \<Longrightarrow>
   year_row parse cols r ''publish_time'' = coerce_date parse (r ''publish_time'')"
  by (simp add: year_row_def)

lemma count_row_other: "x \<noteq> c' \<Longrightarrow> count_row c c' cols r x = r x"
  by (simp add: count_row_def)

lemma count_row_same: "c \<in> set cols \<Longrightarrow> count_row c c' cols r c' = word_count (r c)"
  by (simp add: count_row_def)

lemmas row_simps = fill_row_other fill_row_same year_row_other year_row_year year_row_time
  count_row_other count_row_same




lemma clean_row_title: "clean_row parse cols r ''title'' = r ''title''"
  by (simp add: clean_row_def row_simps)

lemma clean_row_year:
  "''publish_time'' \<in> set cols \<Longrightarrow>
   clean_row parse cols r ''publication_year'' = year_of (coerce_date parse (r ''publish_time''))"
  by (simp add: clean_row_def row_simps)

lemma clean_row_time:
  "''publish_time'' \<in> set cols \<Longrightarrow>
   clean_row parse cols r ''publish_time'' = coerce_date parse (r ''publish_time'')"
  by (simp add: clean_row_def row_simps)




subsection \<open>Filling of missing values\<close>


lemma example_kept:
  "filter (has_title (columns example_raw)) (rows example_raw)
   = [mk_row [(''title'', Text ''Novel Coronavirus Spread Patterns''),
                     (''abstract'', Text ''a b  c''), (''journal'', Text ''Lancet''),
                     (''publish_time'', Text ''2020-03-01'')],
      mk_row [(''title'', Text ''Spread Dynamics Of Coronavirus''),
                     (''authors'', Text ''Doe''), (''publish_time'', Text ''soon'')]]"
  by (simp add: example_raw_def mk_row_def has_title_def)


subsection \<open>Rows without a title\<close>



subsection \<open>Publication year\<close>

lemma year_of_coerce_date:
  "year_of (coerce_date parse c) =
   (case c of NaN \<Rightarrow> NaN | Datetime y m d \<Rightarrow> Number y
    | _ \<Rightarrow> (case parse c of None \<Rightarrow> NaN | Some (y, m, d) \<Rightarrow> Number y))"
  by (cases c) (simp_all add: coerce_date_def split: option.splits prod.splits)

text \<open>
  The date step with a parser that reads no UTC offsets. When the raw table has a
  \<open>publish_time\<close> column, cleaning returns a table with a \<open>publication_year\<close> column. On
  every surviving row the \<open>publish_time\<close> cell has become the parsed timestamp, or the
  missing marker when the cell was missing or did not parse, and \<open>publication_year\<close> is
  the year of that timestamp, or missing.
\<close>

lemma publication_year_coerced:
  assumes "''publish_time'' \<in> set (columns df)"
  shows "\<exists>t. prepare_data parse df = Inr t \<and>
    ''publication_year'' \<in> set (columns t) \<and>
    map (\<lambda>r. r ''publish_time'') (rows t) =
      map (\<lambda>r. case r ''publish_time'' of NaN \<Rightarrow> NaN | Datetime y m d \<Rightarrow> Datetime y m d
             | _ \<Rightarrow> (case parse (r ''publish_time'') of
                       None \<Rightarrow> NaN | Some (y, m, d) \<Rightarrow> Datetime y m d))
        (filter (has_title (columns df)) (rows df)) \<and>
    map (\<lambda>r. r ''publication_year'') (rows t) =
      map (\<lambda>r. case r ''publish_time'' of NaN \<Rightarrow> NaN | Datetime y m d \<Rightarrow> Number y
             | _ \<Rightarrow> (case parse (r ''publish_time'') of
                       None \<Rightarrow> NaN | Some (y, m, d) \<Rightarrow> Number y))
        (filter (has_title (columns df)) (rows df))"
proof (intro exI conjI)
  show "prepare_data parse df = Inr (cleaned parse df)" by (rule prepare_data_cleaned)
  show "''publication_year'' \<in> set (columns (cleaned parse df))"
    using assms by (simp add: mem_columns_cleaned)
  show "map (\<lambda>r. r ''publish_time'') (rows (cleaned parse df)) =
      map (\<lambda>r. case r ''publish_time'' of NaN \<Rightarrow> NaN | Datetime y m d \<Rightarrow> Datetime y m d
             | _ \<Rightarrow> (case parse (r ''publish_time'') of
                       None \<Rightarrow> NaN | Some (y, m, d) \<Rightarrow> Datetime y m d))
        (filter (has_title (columns df)) (rows df))"
    using assms by (simp add: rows_cleaned clean_row_time comp_def coerce_date_def)
  show "map (\<lambda>r. r ''publication_year'') (rows (cleaned parse df)) =
      map (\<lambda>r. case r ''publish_time'' of NaN \<Rightarrow> NaN | Datetime y m d \<Rightarrow> Number y
             | _ \<Rightarrow> (case parse (r ''publish_time'') of
                       None \<Rightarrow> NaN | Some (y, m, d) \<Rightarrow> Number y))
        (filter (has_title (columns df)) (rows df))"
    using assms by (simp add: rows_cleaned clean_row_year comp_def year_of_coerce_date)
qed

lemma publication_year_coerced_example:
  "''publish_time'' \<in> set (columns example_raw) \<and>
   (\<exists>t. prepare_data example_parse example_raw = Inr t \<and>
      ''publication_year'' \<in> set (columns t) \<and>
      map (\<lambda>r. r ''publish_time'') (rows t) = [Datetime 2020 3 1, NaN] \<and>
      map (\<lambda>r. r ''publication_year'') (rows t) = [Number 2020, NaN])"
proof -
  have h: "''publish_time'' \<in> set (columns example_raw)" by (simp add: example_raw_def)
  obtain t where t: "prepare_data example_parse example_raw = Inr t \<and>
    ''publication_year'' \<in> set (columns t) \<and>
    map (\<lambda>r. r ''publish_time'') (rows t) =
      map (\<lambda>r. case r ''publish_time'' of NaN \<Rightarrow> NaN | Datetime y m d \<Rightarrow> Datetime y m d
             | _ \<Rightarrow> (case example_parse (r ''publish_time'') of
                       None \<Rightarrow> NaN | Some (y, m, d) \<Rightarrow> Datetime y m d))
        (filter (has_title (columns example_raw)) (rows example_raw)) \<and>
    map (\<lambda>r. r ''publication_year'') (rows t) =
      map (\<lambda>r. case r ''publish_time'' of NaN \<Rightarrow> NaN | Datetime y m d \<Rightarrow> Number y
             | _ \<Rightarrow> (case example_parse (r ''publish_time'') of
                       None \<Rightarrow> NaN | Some (y, m, d) \<Rightarrow> Number y))
        (filter (has_title (columns example_raw)) (rows example_raw))"
    using publication_year_coerced [OF h, of example_parse] ..
  note t0 = t [THEN conjunct1]
  note t1 = t [THEN conjunct2, THEN conjunct1]
  note t2 = t [THEN conjunct2, THEN conjunct2, THEN conjunct1]
  note t3 = t [THEN conjunct2, THEN conjunct2, THEN conjunct2]
  have a: "map (\<lambda>r. r ''publish_time'') (rows t) = [Datetime 2020 3 1, NaN]"
    unfolding t2 example_kept by (simp add: mk_row_def example_parse_def)
  have b: "map (\<lambda>r. r ''publication_year'') (rows t) = [Number 2020, NaN]"
    unfolding t3 example_kept by (simp add: mk_row_def example_parse_def)
  have "\<exists>t. prepare_data example_parse example_raw = Inr t \<and>
      ''publication_year'' \<in> set (columns t) \<and>
      map (\<lambda>r. r ''publish_time'') (rows t) = [Datetime 2020 3 1, NaN] \<and>
      map (\<lambda>r. r ''publication_year'') (rows t) = [Number 2020, NaN]"
    by (intro exI [of _ t] conjI) (rule t0 t1 a b)+
  with h show ?thesis by (rule conjI)
qed

subsection \<open>Word counts\<close>




subsection \<open>The year filter\<close>

lemma series_ge_numeric:
  "\<forall>r \<in> set rs. r c = NaN \<or> is_number (r c) \<Longrightarrow>
   series_ge (map (\<lambda>r. r c) rs) k =
   Inr (map (\<lambda>r. case r c of Number i \<Rightarrow> k \<le> i | _ \<Rightarrow> False) rs)"
proof (induction rs)
  case Nil
  then show ?case by (simp add: series_ge_def)
next
  case (Cons r rs)
  then have "series_ge (map (\<lambda>r. r c) rs) k =
             Inr (map (\<lambda>r. case r c of Number i \<Rightarrow> k \<le> i | _ \<Rightarrow> False) rs)" by simp
  moreover from Cons.prems have "r c = NaN \<or> is_number (r c)" by simp
  ultimately show ?case
    by (cases "r c") (simp_all add: series_ge_def bind_def)
qed

lemma series_le_numeric:
  "\<forall>r \<in> set rs. r c = NaN \<or> is_number (r c) \<Longrightarrow>
   series_le (map (\<lambda>r. r c) rs) k =
   Inr (map (\<lambda>r. case r c of Number i \<Rightarrow> i \<le> k | _ \<Rightarrow> False) rs)"
proof (induction rs)
  case Nil
  then show ?case by (simp add: series_le_def)
next
  case (Cons r rs)
  then have "series_le (map (\<lambda>r. r c) rs) k =
             Inr (map (\<lambda>r. case r c of Number i \<Rightarrow> i \<le> k | _ \<Rightarrow> False) rs)" by simp
  moreover from Cons.prems have "r c = NaN \<or> is_number (r c)" by simp
  ultimately show ?case
    by (cases "r c") (simp_all add: series_le_def bind_def)
qed

lemma map2_conj: "map2 (\<and>) (map f rs) (map g rs) = map (\<lambda>r. f r \<and> g r) rs"
  by (induction rs) auto

lemma in_year_range_conj:
  "((case c of Number i \<Rightarrow> lo \<le> i | _ \<Rightarrow> False) \<and> (case c of Number i \<Rightarrow> i \<le> hi | _ \<Rightarrow> False))
   = in_year_range lo hi c"
  by (cases c) (simp_all add: in_year_range_def)

lemma year_filter_numeric:
  assumes "''publication_year'' \<in> set (columns df)"
    and "\<forall>r \<in> set (rows df). r ''publication_year'' = NaN \<or> is_number (r ''publication_year'')"
  shows "year_filter lo hi df =
         Inr \<lparr>columns = columns df,
              rows = filter (\<lambda>r. in_year_range lo hi (r ''publication_year'')) (rows df)\<rparr>"
proof -
  have g: "getitem df ''publication_year'' = Inr (map (\<lambda>r. r ''publication_year'') (rows df))"
    using assms(1) by (simp add: getitem_def)
  have m: "map2 (\<and>) (map (\<lambda>r. case r ''publication_year'' of Number i \<Rightarrow> lo \<le> i | _ \<Rightarrow> False) (rows df))
             (map (\<lambda>r. case r ''publication_year'' of Number i \<Rightarrow> i \<le> hi | _ \<Rightarrow> False) (rows df))
           = map (\<lambda>r. in_year_range lo hi (r ''publication_year'')) (rows df)"
    by (simp only: map2_conj in_year_range_conj)
  have s: "select_mask df (map (\<lambda>r. in_year_range lo hi (r ''publication_year'')) (rows df)) =
           Inr \<lparr>columns = columns df,
                rows = filter (\<lambda>r. in_year_range lo hi (r ''publication_year'')) (rows df)\<rparr>"
    by (simp add: select_mask_def filter_mask)
  show ?thesis
    unfolding year_filter_def
    by (simp only: assms(1) if_True g bind_Inr series_ge_numeric [OF assms(2)]
        series_le_numeric [OF assms(2)] m s)
qed

lemma year_of_numeric: "year_of c = NaN \<or> is_number (year_of c)"
  by (cases c) simp_all

lemma cleaned_year_numeric:
  "''publish_time'' \<in> set (columns df) \<Longrightarrow>
   \<forall>r \<in> set (rows (cleaned parse df)).
      r ''publication_year'' = NaN \<or> is_number (r ''publication_year'')"
  by (simp add: rows_cleaned clean_row_year year_of_numeric)

lemma journal_filter_none: "journal_filter [] df = Inr df"
  by (simp add: journal_filter_def)

lemma year_filter_kept:
  assumes "''publication_year'' \<in> set (columns df)"
    and "\<forall>r \<in> set (rows df). r ''publication_year'' = NaN \<or> is_number (r ''publication_year'')"
  shows "\<exists>f. year_filter lo hi df = Inr f \<and> filtered_view lo hi [] df = Inr f \<and>
     columns f = columns df \<and>
     rows f = filter (\<lambda>r. case r ''publication_year'' of
                             Number y \<Rightarrow> lo \<le> y \<and> y \<le> hi | _ \<Rightarrow> False) (rows df) \<and>
     (\<forall>r \<in> set (rows f). r ''publication_year'' \<noteq> NaN)"
proof -
  let ?f = "\<lparr>columns = columns df,
             rows = filter (\<lambda>r. in_year_range lo hi (r ''publication_year'')) (rows df)\<rparr>"
  have y: "year_filter lo hi df = Inr ?f" by (rule year_filter_numeric [OF assms])
  have v: "filtered_view lo hi [] df = Inr ?f"
    by (simp add: filtered_view_def y bind_Inr journal_filter_none)
  have r: "rows ?f = filter (\<lambda>r. case r ''publication_year'' of
                             Number y \<Rightarrow> lo \<le> y \<and> y \<le> hi | _ \<Rightarrow> False) (rows df)"
    by (simp add: in_year_range_def [abs_def])
  have n: "\<forall>r \<in> set (rows ?f). r ''publication_year'' \<noteq> NaN"
    by (auto simp: in_year_range_def)
  have c: "columns ?f = columns df" by simp
  show ?thesis by (intro exI [of _ ?f] conjI) (rule y v c r n)+
qed

text \<open>
  Claim C10. On a table whose \<open>publication_year\<close> column holds years and missing
  markers, as every cleaned table with a \<open>publish_time\<close> column does, the year filter
  returns the table with the same columns and exactly the rows whose year is present and
  lies between the two bounds, both included. No row with a missing year is in the view,
  whatever the bounds; with no journal selected this is the whole filtered view.
\<close>

theorem year_filter_inclusive:
  assumes "''publication_year'' \<in> set (columns df)"
    and "\<forall>r \<in> set (rows df). r ''publication_year'' = NaN \<or> is_number (r ''publication_year'')"
  shows "\<exists>f. year_filter lo hi df = Inr f \<and> filtered_view lo hi [] df = Inr f \<and>
     columns f = columns df \<and>
     rows f = filter (\<lambda>r. case r ''publication_year'' of
                             Number y \<Rightarrow> lo \<le> y \<and> y \<le> hi | _ \<Rightarrow> False) (rows df) \<and>
     (\<forall>r \<in> set (rows f). r ''publication_year'' \<noteq> NaN)"
proof -
  let ?f = "\<lparr>columns = columns df,
             rows = filter (\<lambda>r. in_year_range lo hi (r ''publication_year'')) (rows df)\<rparr>"
  have y: "year_filter lo hi df = Inr ?f" by (rule year_filter_numeric [OF assms])
  have v: "filtered_view lo hi [] df = Inr ?f"
    by (simp add: filtered_view_def y bind_Inr journal_filter_none)
  have r: "rows ?f = filter (\<lambda>r. case r ''publication_year'' of
                             Number y \<Rightarrow> lo \<le> y \<and> y \<le> hi | _ \<Rightarrow> False) (rows df)"
    by (simp add: in_year_range_def [abs_def])
  have n: "\<forall>r \<in> set (rows ?f). r ''publication_year'' \<noteq> NaN"
    by (auto simp: in_year_range_def)
  have c: "columns ?f = columns df" by simp
  show ?thesis by (intro exI [of _ ?f] conjI) (rule y v c r n)+
qed

theorem year_filter_inclusive_witness:
  "prepare_data example_parse example_raw = Inr (cleaned example_parse example_raw) \<and>
   ''publication_year'' \<in> set (columns (cleaned example_parse example_raw)) \<and>
   map (\<lambda>r. r ''publication_year'') (rows (cleaned example_parse example_raw)) = [Number 2020, NaN] \<and>
   (\<exists>f. year_filter 0 9999 (cleaned example_parse example_raw) = Inr f \<and>
        map (\<lambda>r. r ''title'') (rows f) = [Text ''Novel Coronavirus Spread Patterns''])"
proof -
  let ?c = "cleaned example_parse example_raw"
  have p: "''publish_time'' \<in> set (columns example_raw)" by (simp add: example_raw_def)
  have h1: "''publication_year'' \<in> set (columns ?c)"
    using p by (simp add: mem_columns_cleaned)
  have h2: "\<forall>r \<in> set (rows ?c). r ''publication_year'' = NaN \<or> is_number (r ''publication_year'')"
    by (rule cleaned_year_numeric [OF p])
  have y: "map (\<lambda>r. r ''publication_year'') (rows ?c) = [Number 2020, NaN]"
    by (simp add: rows_cleaned example_kept clean_row_year [OF p] coerce_date_def
        example_parse_def mk_row_def)
  obtain f where f: "year_filter 0 9999 ?c = Inr f \<and> filtered_view 0 9999 [] ?c = Inr f \<and>
     columns f = columns ?c \<and>
     rows f = filter (\<lambda>r. case r ''publication_year'' of
                             Number y \<Rightarrow> 0 \<le> y \<and> y \<le> 9999 | _ \<Rightarrow> False) (rows ?c) \<and>
     (\<forall>r \<in> set (rows f). r ''publication_year'' \<noteq> NaN)"
    using year_filter_inclusive [OF h1 h2, of 0 9999] ..
  note f0 = f [THEN conjunct1]
  note f3 = f [THEN conjunct2, THEN conjunct2, THEN conjunct2, THEN conjunct1]
  have t: "map (\<lambda>r. r ''title'') (rows f) = [Text ''Novel Coronavirus Spread Patterns'']"
    unfolding f3
    by (simp add: rows_cleaned example_kept clean_row_year [OF p] clean_row_title
        coerce_date_def example_parse_def mk_row_def)
  have e: "\<exists>f. year_filter 0 9999 ?c = Inr f \<and>
        map (\<lambda>r. r ''title'') (rows f) = [Text ''Novel Coronavirus Spread Patterns'']"
    by (intro exI [of _ f] conjI) (rule f0 t)+
  show ?thesis by (intro conjI) (rule prepare_data_cleaned h1 y e)+
qed

subsection \<open>The empty filtered view\<close>

lemma getitem_empty:
  "c \<in> set (columns df) \<Longrightarrow> rows df = [] \<Longrightarrow> getitem df c = Inr []"
  by (simp add: getitem_def)

lemma year_range_metric_empty:
  "''publication_year'' \<in> set (columns df) \<Longrightarrow> rows df = [] \<Longrightarrow>
   year_range_metric df = Inl ValueError"
  by (simp add: year_range_metric_def getitem_empty bind_Inr series_min_def)
     (simp add: bind_def)

lemma title_words_empty: "title_words [] = []"
  by (simp add: title_words_def all_titles_def lower_def split_def)

lemma most_common_empty: "most_common (Counter []) n = []"
  by (simp add: most_common_def Counter_def sorted_by_count_def)

lemma word_analysis_empty:
  "''title'' \<in> set (columns df) \<Longrightarrow> rows df = [] \<Longrightarrow> word_analysis df n = Inl ValueError"
  by (simp add: word_analysis_def getitem_empty bind_Inr title_words_empty most_common_empty
      unzip_pairs_def)
     (simp add: bind_def)

lemma top_words_empty:
  "''title'' \<in> set (columns df) \<Longrightarrow> rows df = [] \<Longrightarrow> top_words df n = Inr (Some [])"
  by (simp add: top_words_def getitem_empty bind_Inr title_words_empty most_common_empty)

lemma value_counts_empty: "value_counts [] = []"
  by (simp add: value_counts_def Counter_def sorted_by_count_def)

lemma papers_by_year_empty:
  "''publication_year'' \<in> set (columns df) \<Longrightarrow> rows df = [] \<Longrightarrow>
   papers_by_year df = Inr (Some [])"
  by (simp add: papers_by_year_def getitem_empty bind_Inr value_counts_empty sort_index_def)

lemma top_journals_empty:
  "''journal'' \<in> set (columns df) \<Longrightarrow> rows df = [] \<Longrightarrow> top_journals df n = Inr (Some [])"
  by (simp add: top_journals_def getitem_empty bind_Inr value_counts_empty head_def)

lemma example_gap_kept:
  "filter (has_title (columns example_gap)) (rows example_gap) =
     [mk_row [(''title'', Text ''Early Outbreak Report''), (''journal'', Text ''Lancet''),
              (''publish_time'', Text ''2018-06-30'')],
      mk_row [(''title'', Text ''Later Outbreak Report''), (''journal'', Text ''Nature''),
              (''publish_time'', Text ''2020-03-01'')]]"
  by (simp add: example_gap_def mk_row_def has_title_def)

text \<open>
  Claim C7, at the table \<open>example_gap\<close> with the years 2018 and 2020 and the slider
  range 2019 to 2019, which the slider bounds 2018 and 2020 allow. The filter returns a
  view with no rows, and the counts by year, the top journals and the top words of that
  view are empty. The year-range metric of the overview tab and the word analysis tab
  both end in \<open>ValueError\<close> on that view.
\<close>

theorem empty_view_breaks_dashboard:
  "\<exists>c f. prepare_data example_parse example_gap = Inr c \<and>
         year_bounds c = Inr (Some (2018, 2020)) \<and>
         year_filter 2019 2019 c = Inr f \<and> rows f = [] \<and>
         papers_by_year f = Inr (Some []) \<and>
         top_journals f 15 = Inr (Some []) \<and>
         top_words f 20 = Inr (Some []) \<and>
         year_range_metric f = Inl ValueError \<and>
         word_analysis f 20 = Inl ValueError"
proof -
  let ?c = "cleaned example_parse example_gap"
  have p: "''publish_time'' \<in> set (columns example_gap)" by (simp add: example_gap_def)
  have h1: "''publication_year'' \<in> set (columns ?c)"
    using p by (simp add: mem_columns_cleaned)
  have h2: "\<forall>r \<in> set (rows ?c). r ''publication_year'' = NaN \<or> is_number (r ''publication_year'')"
    by (rule cleaned_year_numeric [OF p])
  have y: "map (\<lambda>r. r ''publication_year'') (rows ?c) = [Number 2018, Number 2020]"
    by (simp add: rows_cleaned example_gap_kept clean_row_year [OF p] coerce_date_def
        example_parse_def mk_row_def)
  have g: "getitem ?c ''publication_year'' = Inr [Number 2018, Number 2020]"
    using h1 y by (simp add: getitem_def)
  have b: "year_bounds ?c = Inr (Some (2018, 2020))"
    unfolding year_bounds_def
    by (simp only: h1 if_True g bind_Inr)
       (simp add: series_min_def series_max_def notna_def bind_Inr)
  obtain f where f: "year_filter 2019 2019 ?c = Inr f \<and> filtered_view 2019 2019 [] ?c = Inr f \<and>
     columns f = columns ?c \<and>
     rows f = filter (\<lambda>r. case r ''publication_year'' of
                             Number y \<Rightarrow> 2019 \<le> y \<and> y \<le> 2019 | _ \<Rightarrow> False) (rows ?c) \<and>
     (\<forall>r \<in> set (rows f). r ''publication_year'' \<noteq> NaN)"
    using year_filter_kept [OF h1 h2, of 2019 2019] ..
  note f0 = f [THEN conjunct1]
  note fc = f [THEN conjunct2, THEN conjunct2, THEN conjunct1]
  note fr = f [THEN conjunct2, THEN conjunct2, THEN conjunct2, THEN conjunct1]
  have e: "rows f = []"
    unfolding fr
    by (simp add: rows_cleaned example_gap_kept clean_row_year [OF p] coerce_date_def
        example_parse_def mk_row_def)
  have cy: "''publication_year'' \<in> set (columns f)" unfolding fc by (rule h1)
  have ct: "''title'' \<in> set (columns f)"
    unfolding fc by (simp add: mem_columns_cleaned example_gap_def)
  have cj: "''journal'' \<in> set (columns f)"
    unfolding fc by (simp add: mem_columns_cleaned example_gap_def)
  show ?thesis
    by (intro exI [of _ ?c] exI [of _ f] conjI)
       (rule prepare_data_cleaned b f0 e papers_by_year_empty [OF cy e]
         top_journals_empty [OF cj e] top_words_empty [OF ct e]
         year_range_metric_empty [OF cy e] word_analysis_empty [OF ct e])+
qed

subsection \<open>Counting in first-seen order\<close>

lemma set_first_seen: "set (first_seen xs) = set xs"
  by (induction xs) auto

lemma distinct_first_seen: "distinct (first_seen xs)"
  by (induction xs) (auto simp: distinct_removeAll)

lemma keys_count_elem:
  "map fst (count_elem x d) = (if x \<in> set (map fst d) then map fst d else map fst d @ [x])"
  by (induction d) (auto simp: rev_image_eqI)

lemma count_of_count_elem:
  "count_of (count_elem x d) w = count_of d w + (if w = x then 1 else 0)"
  by (induction d) (auto simp: count_of_def)

lemma filter_removeAll_skip: "\<not> P x \<Longrightarrow> filter P (removeAll x ys) = filter P ys"
  by (induction ys) auto

lemma filter_removeAll: "filter (\<lambda>w. P w \<and> w \<noteq> x) ys = filter P (removeAll x ys)"
  by (induction ys) auto

lemma keys_foldl:
  "map fst (foldl (\<lambda>d x. count_elem x d) d xs) =
   map fst d @ filter (\<lambda>w. w \<notin> set (map fst d)) (first_seen xs)"
proof (induction xs arbitrary: d)
  case Nil
  then show ?case by simp
next
  case (Cons x xs)
  show ?case
  proof (cases "x \<in> set (map fst d)")
    case True
    then show ?thesis
      using Cons.IH [of "count_elem x d"] by (simp add: keys_count_elem filter_removeAll_skip)
  next
    case False
    have "filter (\<lambda>w. w \<notin> set (map fst d @ [x])) (first_seen xs) =
          filter (\<lambda>w. w \<notin> set (map fst d) \<and> w \<noteq> x) (first_seen xs)"
      by (rule filter_cong) auto
    also have "\<dots> = filter (\<lambda>w. w \<notin> set (map fst d)) (removeAll x (first_seen xs))"
      by (rule filter_removeAll)
    finally have e: "filter (\<lambda>w. w \<notin> set (map fst d @ [x])) (first_seen xs) =
          filter (\<lambda>w. w \<notin> set (map fst d)) (removeAll x (first_seen xs))" .
    have "map fst (foldl (\<lambda>d x. count_elem x d) (count_elem x d) xs) =
          (map fst d @ [x]) @ filter (\<lambda>w. w \<notin> set (map fst d @ [x])) (first_seen xs)"
      using Cons.IH [of "count_elem x d"] False by (simp only: keys_count_elem if_False)
    then show ?thesis using False by (simp only: e foldl_Cons first_seen.simps) simp
  qed
qed

lemma count_of_foldl:
  "count_of (foldl (\<lambda>d x. count_elem x d) d xs) w = count_of d w + count_list xs w"
  by (induction xs arbitrary: d) (auto simp: count_of_count_elem)

lemma alist_by_keys:
  "distinct (map fst d) \<Longrightarrow> map (\<lambda>p. (fst p, count_of d (fst p))) d = d"
proof (induction d)
  case Nil
  then show ?case by simp
next
  case (Cons p d)
  obtain k c where p: "p = (k, c)" by (cases p)
  from Cons.prems p have k: "k \<notin> fst ` set d" and dd: "distinct (map fst d)" by auto
  have "map (\<lambda>q. (fst q, count_of ((k, c) # d) (fst q))) d =
        map (\<lambda>q. (fst q, count_of d (fst q))) d"
    by (rule map_cong) (use k in \<open>auto simp: count_of_def\<close>)
  also have "\<dots> = d" by (rule Cons.IH [OF dd])
  finally have r: "map (\<lambda>q. (fst q, count_of ((k, c) # d) (fst q))) d = d" .
  have "count_of ((k, c) # d) k = c" by (simp add: count_of_def)
  with r show ?case by (simp add: p)
qed

lemma Counter_first_seen:
  "Counter xs = map (\<lambda>w. (w, count_list xs w)) (first_seen xs)"
proof -
  let ?d = "foldl (\<lambda>d x. count_elem x d) [] xs"
  have k: "map fst ?d = first_seen xs" by (simp add: keys_foldl)
  then have "distinct (map fst ?d)" by (simp add: distinct_first_seen)
  from alist_by_keys [OF this] have "?d = map (\<lambda>p. (fst p, count_of ?d (fst p))) ?d" by simp
  also have "\<dots> = map (\<lambda>w. (w, count_of ?d w)) (map fst ?d)" by (simp add: comp_def)
  also have "\<dots> = map (\<lambda>w. (w, count_of ?d w)) (first_seen xs)" by (simp only: k)
  also have "\<dots> = map (\<lambda>w. (w, count_list xs w)) (first_seen xs)"
    by (rule map_cong) (simp_all add: count_of_foldl, simp add: count_of_def)
  finally show ?thesis by (simp add: Counter_def)
qed

lemma set_sorted_by_count: "set (sorted_by_count d) = set d"
  by (simp add: sorted_by_count_def)

lemma distinct_map_insort_key:
  "distinct (map g (insort_key f x xs)) = (g x \<notin> g ` set xs \<and> distinct (map g xs))"
  by (induction xs) (auto simp: set_insort_key)

lemma distinct_map_sort_key: "distinct (map g (sort_key f xs)) = distinct (map g xs)"
  by (induction xs) (simp_all add: distinct_map_insort_key)

lemma distinct_keys_sorted_by_count:
  "distinct (map fst d) \<Longrightarrow> distinct (map fst (sorted_by_count d))"
  by (simp add: sorted_by_count_def distinct_map_sort_key)

lemma descending_sorted_by_count:
  "sorted_wrt (\<lambda>p q. snd q \<le> snd p) (sorted_by_count d)"
proof -
  have "sorted (map (\<lambda>p. - int (snd p)) (sorted_by_count d))"
    unfolding sorted_by_count_def by (rule sorted_sort_key)
  then have "sorted_wrt (\<lambda>p q. - int (snd p) \<le> - int (snd q)) (sorted_by_count d)"
    by (simp add: sorted_map)
  then show ?thesis by (rule sorted_wrt_mono_rel [rotated]) simp
qed

lemma stable_sorted_by_count:
  "filter (\<lambda>p. snd p = k) (sorted_by_count d) = filter (\<lambda>p. snd p = k) d"
proof -
  have "filter (\<lambda>p. - int (snd p) = - int k) (sort_key (\<lambda>p. - int (snd p)) d) =
        filter (\<lambda>p. - int (snd p) = - int k) d"
    by (rule sort_key_stable)
  then show ?thesis by (simp add: sorted_by_count_def)
qed

lemma Counter_keys: "map fst (Counter xs) = first_seen xs"
  by (simp add: Counter_first_seen comp_def)

lemma Counter_counts: "p \<in> set (Counter xs) \<Longrightarrow> snd p = count_list xs (fst p)"
  by (auto simp: Counter_first_seen)

lemma Counter_ties:
  "map fst (filter (\<lambda>p. snd p = k) (Counter xs)) = filter (\<lambda>w. count_list xs w = k) (first_seen xs)"
  by (simp add: Counter_first_seen filter_map comp_def)

lemma ranking_properties:
  fixes xs :: "'a list"
  defines "full \<equiv> sorted_by_count (Counter xs)"
  shows "distinct (map fst full)"
    and "set (map fst full) = set xs"
    and "\<forall>p \<in> set full. snd p = count_list xs (fst p)"
    and "sorted_wrt (\<lambda>p q. snd q \<le> snd p) full"
    and "\<forall>k. map fst (filter (\<lambda>p. snd p = k) full) =
             filter (\<lambda>w. count_list xs w = k) (first_seen xs)"
proof -
  show "distinct (map fst full)"
    unfolding full_def
    by (rule distinct_keys_sorted_by_count) (simp add: Counter_keys distinct_first_seen)
  have "set (map fst full) = set (map fst (Counter xs))"
    unfolding full_def by (simp add: set_sorted_by_count)
  then show "set (map fst full) = set xs" by (simp only: Counter_keys set_first_seen)
  show "\<forall>p \<in> set full. snd p = count_list xs (fst p)"
    unfolding full_def by (simp add: set_sorted_by_count Counter_counts)
  show "sorted_wrt (\<lambda>p q. snd q \<le> snd p) full"
    unfolding full_def by (rule descending_sorted_by_count)
  show "\<forall>k. map fst (filter (\<lambda>p. snd p = k) full) =
             filter (\<lambda>w. count_list xs w = k) (first_seen xs)"
    unfolding full_def by (simp only: stable_sorted_by_count Counter_ties) simp
qed

subsection \<open>Most frequent title words\<close>

lemma sorted_wrt_take_drop:
  "sorted_wrt R xs \<Longrightarrow> \<forall>p \<in> set (take n xs). \<forall>q \<in> set (drop n xs). R p q"
  using sorted_wrt_append [of R "take n xs" "drop n xs"] by simp

lemma example_all_titles:
  "all_titles [Text ''Novel Coronavirus Spread Patterns'', Text ''Spread Dynamics Of Coronavirus'']
   = ''novel coronavirus spread patterns spread dynamics of coronavirus''"
  by (simp add: all_titles_def lower_def lower_char_def upper_chars_def lower_chars_def)

lemma example_split:
  "split ''novel coronavirus spread patterns spread dynamics of coronavirus'' =
   [''novel'', ''coronavirus'', ''spread'', ''patterns'', ''spread'', ''dynamics'', ''of'',
    ''coronavirus'']"
  by (simp add: split_def isspace_char_def)

lemma example_title_words:
  "title_words [Text ''Novel Coronavirus Spread Patterns'', Text ''Spread Dynamics Of Coronavirus'']
   = [''spread'', ''patterns'', ''spread'', ''dynamics'']"
  unfolding title_words_def example_all_titles example_split
  by (simp add: isalpha_def isalpha_char_def stop_words_def)

lemma example_most_common:
  "most_common (Counter [''spread'', ''patterns'', ''spread'', ''dynamics'']) 20 =
   [(''spread'', 2), (''patterns'', 1), (''dynamics'', 1)]"
  by (simp add: most_common_def Counter_def sorted_by_count_def)

lemma example_top_words:
  "top_words example_titles 20 = Inr (Some [(''spread'', 2), (''patterns'', 1), (''dynamics'', 1)])"
proof -
  have "getitem example_titles ''title'' =
        Inr [Text ''Novel Coronavirus Spread Patterns'', Text ''Spread Dynamics Of Coronavirus'']"
    by (simp add: getitem_def example_titles_def mk_row_def)
  moreover have "''title'' \<in> set (columns example_titles)" by (simp add: example_titles_def)
  ultimately show ?thesis
    by (simp only: top_words_def if_True bind_Inr example_title_words example_most_common)
qed

text \<open>
  Claim C3. On a table with a \<open>title\<close> column, \<open>top_words\<close> with \<open>n\<close> returns the first
  \<open>n\<close> entries of a ranking of the title words. The title words are the tokens of the
  lower-cased, space-joined titles that are alphabetic, longer than 3 and not stop words.
  The ranking lists each distinct title word once with its number of occurrences, by
  decreasing count, and words with equal counts in the order of their first occurrence;
  every word left out has a count no larger than any word returned. On the titles
  \<open>Novel Coronavirus Spread Patterns\<close> and \<open>Spread Dynamics Of Coronavirus\<close> the result
  is spread 2, patterns 1, dynamics 1.
\<close>

theorem top_words_ranking:
  assumes "''title'' \<in> set (columns df)"
  shows "\<exists>res rest.
     top_words df n = Inr (Some res) \<and>
     length res \<le> n \<and> (rest \<noteq> [] \<longrightarrow> length res = n) \<and>
     distinct (map fst (res @ rest)) \<and>
     set (map fst (res @ rest)) = set (title_words (map (\<lambda>r. r ''title'') (rows df))) \<and>
     (\<forall>p \<in> set (res @ rest).
        snd p = count_list (title_words (map (\<lambda>r. r ''title'') (rows df))) (fst p)) \<and>
     sorted_wrt (\<lambda>p q. snd q \<le> snd p) (res @ rest) \<and>
     (\<forall>p \<in> set res. \<forall>q \<in> set rest. snd q \<le> snd p) \<and>
     (\<forall>k. map fst (filter (\<lambda>p. snd p = k) (res @ rest)) =
          filter (\<lambda>w. count_list (title_words (map (\<lambda>r. r ''title'') (rows df))) w = k)
            (first_seen (title_words (map (\<lambda>r. r ''title'') (rows df))))) \<and>
     title_words (map (\<lambda>r. r ''title'') (rows df)) =
       filter (\<lambda>w. isalpha w \<and> 3 < length w \<and> w \<notin> set stop_words)
         (split (lower (join '' '' (map str (map (\<lambda>r. r ''title'') (rows df)))))) \<and>
     ''novel'' \<in> set stop_words \<and> ''coronavirus'' \<in> set stop_words \<and>
     top_words example_titles 20 =
       Inr (Some [(''spread'', 2), (''patterns'', 1), (''dynamics'', 1)])"
proof -
  let ?toks = "title_words (map (\<lambda>r. r ''title'') (rows df))"
  let ?full = "sorted_by_count (Counter ?toks)"
  let ?res = "take n ?full"
  let ?rest = "drop n ?full"
  have a: "?res @ ?rest = ?full" by simp
  have t: "top_words df n = Inr (Some ?res)"
    using assms by (simp add: top_words_def getitem_def bind_Inr most_common_def)
  have l: "length ?res \<le> n" by simp
  have m: "?rest \<noteq> [] \<longrightarrow> length ?res = n" by auto
  have w: "?toks = filter (\<lambda>w. isalpha w \<and> 3 < length w \<and> w \<notin> set stop_words)
         (split (lower (join '' '' (map str (map (\<lambda>r. r ''title'') (rows df))))))"
    by (simp only: title_words_def all_titles_def)
  have s1: "''novel'' \<in> set stop_words" by (simp add: stop_words_def)
  have s2: "''coronavirus'' \<in> set stop_words" by (simp add: stop_words_def)
  have d: "\<forall>p \<in> set ?res. \<forall>q \<in> set ?rest. snd q \<le> snd p"
    by (rule sorted_wrt_take_drop) (rule ranking_properties(4))
  show ?thesis
    apply (rule exI [of _ ?res], rule exI [of _ ?rest])
    apply (simp only: a)
    apply (intro conjI)
    apply (rule t l m ranking_properties d w s1 s2 example_top_words)+
    done
qed

theorem top_words_ranking_witness:
  "''title'' \<in> set (columns example_raw) \<and>
   (\<exists>res. top_words example_raw 2 = Inr (Some res) \<and> length res \<le> 2)"
proof -
  have h: "''title'' \<in> set (columns example_raw)" by (simp add: example_raw_def)
  from top_words_ranking [OF h, of 2] obtain res rest where
    "top_words example_raw 2 = Inr (Some res) \<and> length res \<le> 2 \<and>
     (rest \<noteq> [] \<longrightarrow> length res = 2) \<and>
     distinct (map fst (res @ rest)) \<and>
     set (map fst (res @ rest)) = set (title_words (map (\<lambda>r. r ''title'') (rows example_raw))) \<and>
     (\<forall>p \<in> set (res @ rest).
        snd p = count_list (title_words (map (\<lambda>r. r ''title'') (rows example_raw))) (fst p)) \<and>
     sorted_wrt (\<lambda>p q. snd q \<le> snd p) (res @ rest) \<and>
     (\<forall>p \<in> set res. \<forall>q \<in> set rest. snd q \<le> snd p) \<and>
     (\<forall>k. map fst (filter (\<lambda>p. snd p = k) (res @ rest)) =
          filter (\<lambda>w. count_list (title_words (map (\<lambda>r. r ''title'') (rows example_raw))) w = k)
            (first_seen (title_words (map (\<lambda>r. r ''title'') (rows example_raw))))) \<and>
     title_words (map (\<lambda>r. r ''title'') (rows example_raw)) =
       filter (\<lambda>w. isalpha w \<and> 3 < length w \<and> w \<notin> set stop_words)
         (split (lower (join '' '' (map str (map (\<lambda>r. r ''title'') (rows example_raw)))))) \<and>
     ''novel'' \<in> set stop_words \<and> ''coronavirus'' \<in> set stop_words \<and>
     top_words example_titles 20 =
       Inr (Some [(''spread'', 2), (''patterns'', 1), (''dynamics'', 1)])"
    by (elim exE)
  then have "top_words example_raw 2 = Inr (Some res) \<and> length res \<le> 2"
    by (intro conjI) (erule conjunct1, erule conjunct2 [THEN conjunct1])
  then have "\<exists>res. top_words example_raw 2 = Inr (Some res) \<and> length res \<le> 2" ..
  with h show ?thesis by (rule conjI)
qed

subsection \<open>Counts by year and by journal\<close>

lemma count_list_filter: "P x \<Longrightarrow> count_list (filter P xs) x = count_list xs x"
  by (induction xs) auto

lemma value_counts_keys_distinct: "distinct (map fst (value_counts s))"
  unfolding value_counts_def by (rule ranking_properties(1))

lemma value_counts_keys: "set (map fst (value_counts s)) = {c \<in> set s. c \<noteq> NaN}"
  unfolding value_counts_def by (simp only: ranking_properties(2)) (auto simp: notna_def)

lemma value_counts_counts: "\<forall>p \<in> set (value_counts s). snd p = count_list s (fst p)"
proof
  fix p assume p: "p \<in> set (value_counts s)"
  then have "fst p \<in> set (map fst (value_counts s))" by simp
  then have n: "notna (fst p)" by (simp only: value_counts_keys) (simp add: notna_def)
  from p have "snd p = count_list (filter notna s) (fst p)"
    unfolding value_counts_def using ranking_properties(3) by blast
  then show "snd p = count_list s (fst p)" by (simp add: count_list_filter [of notna, OF n])
qed

lemma value_counts_descending: "sorted_wrt (\<lambda>p q. snd q \<le> snd p) (value_counts s)"
  unfolding value_counts_def by (rule ranking_properties(4))

lemma the_number_inj: "is_number a \<Longrightarrow> is_number b \<Longrightarrow> the_number a = the_number b \<Longrightarrow> a = b"
  by (cases a; cases b) simp_all

lemma papers_by_year_numeric:
  assumes c: "''publication_year'' \<in> set (columns df)"
    and n: "\<forall>r \<in> set (rows df). r ''publication_year'' = NaN \<or> is_number (r ''publication_year'')"
  defines "s \<equiv> map (\<lambda>r. r ''publication_year'') (rows df)"
  defines "res \<equiv> sort_key (\<lambda>p. the_number (fst p)) (value_counts s)"
  shows "papers_by_year df = Inr (Some res)"
    and "sorted_wrt (<) (map (\<lambda>p. the_number (fst p)) res)"
    and "\<forall>p \<in> set res. is_number (fst p)"
    and "set (map fst res) = {c \<in> set s. c \<noteq> NaN}"
    and "\<forall>p \<in> set res. snd p = count_list s (fst p)"
proof -
  have k: "\<forall>p \<in> set (value_counts s). is_number (fst p)"
  proof
    fix p assume "p \<in> set (value_counts s)"
    then have "fst p \<in> set (map fst (value_counts s))" by simp
    then have "fst p \<in> set s" "fst p \<noteq> NaN" by (simp_all only: value_counts_keys) simp_all
    with n show "is_number (fst p)" by (auto simp: s_def)
  qed
  then have "list_all (\<lambda>p. is_number (fst p)) (value_counts s)" by (simp add: list_all_iff)
  then have "sort_index (value_counts s) = Inr res" by (simp add: sort_index_def res_def)
  then show "papers_by_year df = Inr (Some res)"
    using c by (simp add: papers_by_year_def getitem_def bind_Inr s_def)
  show r3: "\<forall>p \<in> set res. is_number (fst p)" using k by (simp add: res_def)
  have "inj_on (\<lambda>p. the_number (fst p)) (set (value_counts s))"
  proof (rule inj_onI)
    fix p q assume p: "p \<in> set (value_counts s)" and q: "q \<in> set (value_counts s)"
      and e: "the_number (fst p) = the_number (fst q)"
    from k p q e have f: "fst p = fst q" by (auto intro: the_number_inj)
    have "distinct (map fst (value_counts s))" by (rule value_counts_keys_distinct)
    then have "inj_on fst (set (value_counts s))" by (simp add: distinct_map)
    with p q f show "p = q" by (auto dest: inj_onD)
  qed
  moreover have "distinct (value_counts s)"
    using value_counts_keys_distinct [of s] by (simp add: distinct_map)
  ultimately have "distinct (map (\<lambda>p. the_number (fst p)) (value_counts s))"
    by (simp add: distinct_map)
  then have "distinct (map (\<lambda>p. the_number (fst p)) res)"
    by (simp add: res_def distinct_map_sort_key)
  moreover have "sorted (map (\<lambda>p. the_number (fst p)) res)"
    unfolding res_def by (rule sorted_sort_key)
  ultimately show "sorted_wrt (<) (map (\<lambda>p. the_number (fst p)) res)"
    by (simp add: strict_sorted_iff)
  show "set (map fst res) = {c \<in> set s. c \<noteq> NaN}"
    using value_counts_keys [of s] by (simp add: res_def)
  show "\<forall>p \<in> set res. snd p = count_list s (fst p)"
    using value_counts_counts [of s] by (simp add: res_def)
qed

lemma example_papers_by_year:
  "papers_by_year example_years = Inr (Some [(Number 2020, 2), (Number 2021, 1)])"
proof -
  have "getitem example_years ''publication_year'' = Inr [Number 2020, Number 2020, Number 2021]"
    by (simp add: getitem_def example_years_def mk_row_def)
  moreover have "''publication_year'' \<in> set (columns example_years)"
    by (simp add: example_years_def)
  moreover have "value_counts [Number 2020, Number 2020, Number 2021] =
                 [(Number 2020, 2), (Number 2021, 1)]"
    by (simp add: value_counts_def notna_def Counter_def sorted_by_count_def)
  moreover have "sort_index [(Number 2020, 2), (Number 2021, 1)] =
                 Inr [(Number 2020, 2), (Number 2021, 1)]"
    by (simp add: sort_index_def)
  ultimately show ?thesis
    by (simp only: papers_by_year_def if_True bind_Inr)
qed

lemma head_value_counts:
  "\<exists>res rest. head n (value_counts s) = res \<and>
       length res \<le> n \<and> (rest \<noteq> [] \<longrightarrow> length res = n) \<and>
       sorted_wrt (\<lambda>p q. snd q \<le> snd p) (res @ rest) \<and>
       (\<forall>p \<in> set res. \<forall>q \<in> set rest. snd q \<le> snd p) \<and>
       distinct (map fst (res @ rest)) \<and>
       set (map fst (res @ rest)) = {c \<in> set s. c \<noteq> NaN} \<and>
       (\<forall>p \<in> set (res @ rest). snd p = count_list s (fst p))"
proof -
  let ?res = "take n (value_counts s)"
  let ?rest = "drop n (value_counts s)"
  have a: "?res @ ?rest = value_counts s" by simp
  have t: "head n (value_counts s) = ?res" by (simp add: head_def)
  have l: "length ?res \<le> n" by simp
  have m: "?rest \<noteq> [] \<longrightarrow> length ?res = n" by auto
  have d: "\<forall>p \<in> set ?res. \<forall>q \<in> set ?rest. snd q \<le> snd p"
    by (rule sorted_wrt_take_drop) (rule value_counts_descending)
  show ?thesis
    apply (rule exI [of _ ?res], rule exI [of _ ?rest])
    apply (simp only: a)
    apply (intro conjI)
    apply (rule t l m d value_counts_descending value_counts_keys_distinct value_counts_keys
        value_counts_counts)+
    done
qed

lemma top_journals_head:
  "''journal'' \<in> set (columns df) \<Longrightarrow>
   top_journals df n = Inr (Some (head n (value_counts (map (\<lambda>r. r ''journal'') (rows df)))))"
  by (simp add: top_journals_def getitem_def bind_Inr)

lemma top_sources_head:
  "''source_x'' \<in> set (columns df) \<or> ''source'' \<in> set (columns df) \<Longrightarrow>
   top_sources df = Inr (Some (head 10 (value_counts
     (map (\<lambda>r. r (if ''source_x'' \<in> set (columns df) then ''source_x'' else ''source''))
        (rows df)))))"
  by (auto simp: top_sources_def getitem_def bind_Inr)

lemma example_top_sources:
  "top_sources example_sources = Inr (Some [(Text ''PMC'', 2), (Text ''WHO'', 1)])"
proof -
  have c: "''source_x'' \<in> set (columns example_sources)" by (simp add: example_sources_def)
  have s: "map (\<lambda>r. r ''source_x'') (rows example_sources) =
           [Text ''PMC'', Text ''WHO'', Text ''PMC'', NaN]"
    by (simp add: example_sources_def mk_row_def)
  have v: "head 10 (value_counts [Text ''PMC'', Text ''WHO'', Text ''PMC'', NaN]) =
           [(Text ''PMC'', 2), (Text ''WHO'', 1)]"
    by (simp add: head_def value_counts_def notna_def Counter_def sorted_by_count_def)
  have "top_sources example_sources = Inr (Some (head 10 (value_counts
     (map (\<lambda>r. r (if ''source_x'' \<in> set (columns example_sources) then ''source_x'' else ''source''))
        (rows example_sources)))))"
    by (rule top_sources_head) (rule disjI1, rule c)
  then show ?thesis using c by (simp only: if_True s v)
qed

text \<open>
  Claim C4. On a \<open>publication_year\<close> column of years and missing markers, the count by
  year lists each year that occurs once, with the number of its rows, in strictly
  ascending order of the year; on the years 2020, 2020, 2021 it is 2020: 2, 2021: 1.
  The ranking of journals is the first \<open>n\<close> entries of the counts of the non-missing
  journal values in decreasing order of count: at most \<open>n\<close> entries, each value once
  with the number of its rows, and no value left out has a larger count than one kept.
  The ranking of sources is the same ranking with \<open>n = 10\<close>, over the column \<open>source_x\<close>
  when the table has it and over \<open>source\<close> otherwise; on \<open>example_sources\<close>, which has
  both, it counts \<open>source_x\<close>.
\<close>

theorem count_by_orderings:
  "(''publication_year'' \<in> set (columns df) \<and>
    (\<forall>r \<in> set (rows df). r ''publication_year'' = NaN \<or> is_number (r ''publication_year'')) \<longrightarrow>
    (\<exists>res. papers_by_year df = Inr (Some res) \<and>
       sorted_wrt (<) (map (\<lambda>p. the_number (fst p)) res) \<and>
       (\<forall>p \<in> set res. is_number (fst p)) \<and>
       set (map fst res) = {c \<in> set (map (\<lambda>r. r ''publication_year'') (rows df)). c \<noteq> NaN} \<and>
       (\<forall>p \<in> set res.
          snd p = count_list (map (\<lambda>r. r ''publication_year'') (rows df)) (fst p)))) \<and>
   papers_by_year example_years = Inr (Some [(Number 2020, 2), (Number 2021, 1)]) \<and>
   (''journal'' \<in> set (columns df) \<longrightarrow>
    (\<exists>res rest. top_journals df n = Inr (Some res) \<and>
       length res \<le> n \<and> (rest \<noteq> [] \<longrightarrow> length res = n) \<and>
       sorted_wrt (\<lambda>p q. snd q \<le> snd p) (res @ rest) \<and>
       (\<forall>p \<in> set res. \<forall>q \<in> set rest. snd q \<le> snd p) \<and>
       distinct (map fst (res @ rest)) \<and>
       set (map fst (res @ rest)) = {c \<in> set (map (\<lambda>r. r ''journal'') (rows df)). c \<noteq> NaN} \<and>
       (\<forall>p \<in> set (res @ rest).
          snd p = count_list (map (\<lambda>r. r ''journal'') (rows df)) (fst p)))) \<and>
   (''source_x'' \<in> set (columns df) \<or> ''source'' \<in> set (columns df) \<longrightarrow>
    (\<exists>res rest. top_sources df = Inr (Some res) \<and>
       length res \<le> 10 \<and> (rest \<noteq> [] \<longrightarrow> length res = 10) \<and>
       sorted_wrt (\<lambda>p q. snd q \<le> snd p) (res @ rest) \<and>
       (\<forall>p \<in> set res. \<forall>q \<in> set rest. snd q \<le> snd p) \<and>
       distinct (map fst (res @ rest)) \<and>
       set (map fst (res @ rest)) =
         {c \<in> set (map (\<lambda>r. r (if ''source_x'' \<in> set (columns df) then ''source_x'' else ''source''))
                    (rows df)). c \<noteq> NaN} \<and>
       (\<forall>p \<in> set (res @ rest).
          snd p = count_list
            (map (\<lambda>r. r (if ''source_x'' \<in> set (columns df) then ''source_x'' else ''source''))
               (rows df)) (fst p)))) \<and>
   (''source_x'' \<notin> set (columns df) \<and> ''source'' \<notin> set (columns df) \<longrightarrow>
      top_sources df = Inr None) \<and>
   top_sources example_sources = Inr (Some [(Text ''PMC'', 2), (Text ''WHO'', 1)])"
proof (intro conjI impI)
  assume a: "''publication_year'' \<in> set (columns df) \<and>
    (\<forall>r \<in> set (rows df). r ''publication_year'' = NaN \<or> is_number (r ''publication_year''))"
  note p = papers_by_year_numeric [OF a [THEN conjunct1] a [THEN conjunct2]]
  show "\<exists>res. papers_by_year df = Inr (Some res) \<and>
       sorted_wrt (<) (map (\<lambda>p. the_number (fst p)) res) \<and>
       (\<forall>p \<in> set res. is_number (fst p)) \<and>
       set (map fst res) = {c \<in> set (map (\<lambda>r. r ''publication_year'') (rows df)). c \<noteq> NaN} \<and>
       (\<forall>p \<in> set res.
          snd p = count_list (map (\<lambda>r. r ''publication_year'') (rows df)) (fst p))"
    by (rule exI, intro conjI) (rule p)+
next
  show "papers_by_year example_years = Inr (Some [(Number 2020, 2), (Number 2021, 1)])"
    by (rule example_papers_by_year)
next
  assume j: "''journal'' \<in> set (columns df)"
  show "\<exists>res rest. top_journals df n = Inr (Some res) \<and>
       length res \<le> n \<and> (rest \<noteq> [] \<longrightarrow> length res = n) \<and>
       sorted_wrt (\<lambda>p q. snd q \<le> snd p) (res @ rest) \<and>
       (\<forall>p \<in> set res. \<forall>q \<in> set rest. snd q \<le> snd p) \<and>
       distinct (map fst (res @ rest)) \<and>
       set (map fst (res @ rest)) = {c \<in> set (map (\<lambda>r. r ''journal'') (rows df)). c \<noteq> NaN} \<and>
       (\<forall>p \<in> set (res @ rest).
          snd p = count_list (map (\<lambda>r. r ''journal'') (rows df)) (fst p))"
    unfolding top_journals_head [OF j] sum.inject option.inject
    by (rule head_value_counts)
next
  assume s: "''source_x'' \<in> set (columns df) \<or> ''source'' \<in> set (columns df)"
  show "\<exists>res rest. top_sources df = Inr (Some res) \<and>
       length res \<le> 10 \<and> (rest \<noteq> [] \<longrightarrow> length res = 10) \<and>
       sorted_wrt (\<lambda>p q. snd q \<le> snd p) (res @ rest) \<and>
       (\<forall>p \<in> set res. \<forall>q \<in> set rest. snd q \<le> snd p) \<and>
       distinct (map fst (res @ rest)) \<and>
       set (map fst (res @ rest)) =
         {c \<in> set (map (\<lambda>r. r (if ''source_x'' \<in> set (columns df) then ''source_x'' else ''source''))
                    (rows df)). c \<noteq> NaN} \<and>
       (\<forall>p \<in> set (res @ rest).
          snd p = count_list
            (map (\<lambda>r. r (if ''source_x'' \<in> set (columns df) then ''source_x'' else ''source''))
               (rows df)) (fst p))"
    unfolding top_sources_head [OF s] sum.inject option.inject
    by (rule head_value_counts)
next
  assume "''source_x'' \<notin> set (columns df) \<and> ''source'' \<notin> set (columns df)"
  then show "top_sources df = Inr None" by (simp add: top_sources_def)
next
  show "top_sources example_sources = Inr (Some [(Text ''PMC'', 2), (Text ''WHO'', 1)])"
    by (rule example_top_sources)
qed

theorem count_by_orderings_witness:
  "''publication_year'' \<in> set (columns example_years) \<and>
   ''journal'' \<in> set (columns example_raw) \<and>
   ''source_x'' \<in> set (columns example_sources) \<and>
   (\<exists>res. papers_by_year example_years = Inr (Some res) \<and>
      sorted_wrt (<) (map (\<lambda>p. the_number (fst p)) res)) \<and>
   (\<exists>res. top_journals example_raw 1 = Inr (Some res) \<and> length res \<le> 1) \<and>
   (\<exists>res. top_sources example_sources = Inr (Some res) \<and> length res \<le> 10)"
proof -
  have h1: "''publication_year'' \<in> set (columns example_years)" by (simp add: example_years_def)
  have h2: "\<forall>r \<in> set (rows example_years).
              r ''publication_year'' = NaN \<or> is_number (r ''publication_year'')"
    by (simp add: example_years_def mk_row_def)
  have h3: "''journal'' \<in> set (columns example_raw)" by (simp add: example_raw_def)
  have h4: "''source_x'' \<in> set (columns example_sources)" by (simp add: example_sources_def)
  from count_by_orderings [of example_years 1, THEN conjunct1, rule_format, OF conjI, OF h1 h2]
  obtain res where
    "papers_by_year example_years = Inr (Some res) \<and>
       sorted_wrt (<) (map (\<lambda>p. the_number (fst p)) res) \<and>
       (\<forall>p \<in> set res. is_number (fst p)) \<and>
       set (map fst res) =
         {c \<in> set (map (\<lambda>r. r ''publication_year'') (rows example_years)). c \<noteq> NaN} \<and>
       (\<forall>p \<in> set res.
          snd p = count_list (map (\<lambda>r. r ''publication_year'') (rows example_years)) (fst p))"
    by (elim exE)
  then have "papers_by_year example_years = Inr (Some res) \<and>
      sorted_wrt (<) (map (\<lambda>p. the_number (fst p)) res)"
    by (intro conjI) (erule conjunct1, erule conjunct2 [THEN conjunct1])
  then have e1: "\<exists>res. papers_by_year example_years = Inr (Some res) \<and>
      sorted_wrt (<) (map (\<lambda>p. the_number (fst p)) res)" ..
  from count_by_orderings [of example_raw 1, THEN conjunct2, THEN conjunct2, THEN conjunct1,
      rule_format, OF h3]
  obtain res' rest' where
    "top_journals example_raw 1 = Inr (Some res') \<and>
       length res' \<le> 1 \<and> (rest' \<noteq> [] \<longrightarrow> length res' = 1) \<and>
       sorted_wrt (\<lambda>p q. snd q \<le> snd p) (res' @ rest') \<and>
       (\<forall>p \<in> set res'. \<forall>q \<in> set rest'. snd q \<le> snd p) \<and>
       distinct (map fst (res' @ rest')) \<and>
       set (map fst (res' @ rest')) =
         {c \<in> set (map (\<lambda>r. r ''journal'') (rows example_raw)). c \<noteq> NaN} \<and>
       (\<forall>p \<in> set (res' @ rest').
          snd p = count_list (map (\<lambda>r. r ''journal'') (rows example_raw)) (fst p))"
    by (elim exE)
  then have "top_journals example_raw 1 = Inr (Some res') \<and> length res' \<le> 1"
    by (intro conjI) (erule conjunct1, erule conjunct2 [THEN conjunct1])
  then have e2: "\<exists>res. top_journals example_raw 1 = Inr (Some res) \<and> length res \<le> 1" ..
  from count_by_orderings [of example_sources 1, THEN conjunct2, THEN conjunct2, THEN conjunct2,
      THEN conjunct1, rule_format, OF disjI1, OF h4]
  obtain res'' rest'' where
    "top_sources example_sources = Inr (Some res'') \<and>
       length res'' \<le> 10 \<and> (rest'' \<noteq> [] \<longrightarrow> length res'' = 10) \<and>
       sorted_wrt (\<lambda>p q. snd q \<le> snd p) (res'' @ rest'') \<and>
       (\<forall>p \<in> set res''. \<forall>q \<in> set rest''. snd q \<le> snd p) \<and>
       distinct (map fst (res'' @ rest'')) \<and>
       set (map fst (res'' @ rest'')) =
         {c \<in> set (map (\<lambda>r. r (if ''source_x'' \<in> set (columns example_sources)
                                   then ''source_x'' else ''source''))
                    (rows example_sources)). c \<noteq> NaN} \<and>
       (\<forall>p \<in> set (res'' @ rest'').
          snd p = count_list
            (map (\<lambda>r. r (if ''source_x'' \<in> set (columns example_sources)
                          then ''source_x'' else ''source''))
               (rows example_sources)) (fst p))"
    by (elim exE)
  then have "top_sources example_sources = Inr (Some res'') \<and> length res'' \<le> 10"
    by (intro conjI) (erule conjunct1, erule conjunct2 [THEN conjunct1])
  then have e3: "\<exists>res. top_sources example_sources = Inr (Some res) \<and> length res \<le> 10" ..
  show ?thesis by (intro conjI) (rule h1 h3 h4 e1 e2 e3)+
qed

subsection \<open>Cleaning on the store\<close>


lemma next_free_put: "next_free (put s a d) = next_free s"
  by (simp add: put_def)

lemma put_put: "put (put s a d) a d' = put s a d'"
  by (simp add: put_def)








text \<open>
  The in-place fill does change the object it is applied to: without the copy, the raw
  table itself would lose its missing author.
\<close>

lemma fill_in_place_changes_object:
  "\<exists>s'. update_at example_store 0 (\<lambda>d. fillna_inplace d ''authors'' (Text ''Unknown'')) = Inr s' \<and>
        map (\<lambda>r. r ''authors'') (rows (frames s' 0)) = [Text ''Unknown'', Text ''Roe'', Text ''Doe''] \<and>
        map (\<lambda>r. r ''authors'') (rows (frames example_store 0)) = [NaN, Text ''Roe'', Text ''Doe'']"
proof -
  have c: "''authors'' \<in> set (columns example_raw)" by (simp add: example_raw_def)
  have f: "fillna_inplace example_raw ''authors'' (Text ''Unknown'') =
           Inr (fill_col ''authors'' (Text ''Unknown'') example_raw)"
    using fill_step [of "''authors''" example_raw "Text ''Unknown''"] c by simp
  let ?s = "\<lparr>frames = (frames example_store)(0 := fill_col ''authors'' (Text ''Unknown'') example_raw),
             next_free = next_free example_store\<rparr>"
  have u: "update_at example_store 0 (\<lambda>d. fillna_inplace d ''authors'' (Text ''Unknown'')) = Inr ?s"
    by (simp add: update_at_def example_store_def f bind_Inr)
  have a: "map (\<lambda>r. r ''authors'') (rows (frames ?s 0)) = [Text ''Unknown'', Text ''Roe'', Text ''Doe'']"
    by (simp add: rows_fill_col comp_def fill_row_same [OF c]) (simp add: example_raw_def mk_row_def)
  have b: "map (\<lambda>r. r ''authors'') (rows (frames example_store 0)) = [NaN, Text ''Roe'', Text ''Doe'']"
    by (simp add: example_store_def example_raw_def mk_row_def)
  show ?thesis by (intro exI [of _ ?s] conjI) (rule u a b)+
qed



subsection \<open>UTC offsets in the date step\<close>

lemma to_datetime_offsets_uniform:
  assumes "length (parsed_offsets parse s) \<le> 1"
  shows "to_datetime_offsets parse s = to_datetime (\<lambda>c. map_option fst (parse c)) s"
proof -
  have "\<And>c. (case (case c of NaN \<Rightarrow> None | Datetime y m d \<Rightarrow> Some ((y, m, d), None) | _ \<Rightarrow> parse c) of
            None \<Rightarrow> NaN | Some ((y, m, d), off) \<Rightarrow> Datetime y m d) =
        (case c of NaN \<Rightarrow> NaN | Datetime y m d \<Rightarrow> Datetime y m d
         | _ \<Rightarrow> (case map_option fst (parse c) of None \<Rightarrow> NaN | Some (y, m, d) \<Rightarrow> Datetime y m d))"
    by (simp split: cell.splits option.splits prod.splits)
  then show ?thesis
    using assms by (simp add: to_datetime_offsets_def parsed_offsets_def to_datetime_def Let_def)
qed

lemma parsed_offsets_no_offset: "set (parsed_offsets (no_offset parse) s) \<subseteq> {None}"
proof -
  have "\<And>c v. Some v = no_offset parse c \<Longrightarrow> snd v = None"
  proof -
    fix c v assume "Some v = no_offset parse c"
    then show "snd v = None" by (cases "parse c") (simp_all add: no_offset_def)
  qed
  then show ?thesis
    by (auto simp: parsed_offsets_def split: cell.splits option.splits)
qed

lemma distinct_subset_singleton: "distinct xs \<Longrightarrow> set xs \<subseteq> {a} \<Longrightarrow> length xs \<le> 1"
  by (cases xs; cases "tl xs") auto

lemma to_datetime_no_offset: "to_datetime_offsets (no_offset parse) s = to_datetime parse s"
proof -
  have "distinct (parsed_offsets (no_offset parse) s)" by (simp add: parsed_offsets_def)
  then have "length (parsed_offsets (no_offset parse) s) \<le> 1"
    using parsed_offsets_no_offset by (rule distinct_subset_singleton)
  then have "to_datetime_offsets (no_offset parse) s =
             to_datetime (\<lambda>c. map_option fst (no_offset parse c)) s"
    by (rule to_datetime_offsets_uniform)
  moreover have "(\<lambda>c. map_option fst (no_offset parse c)) = parse"
    by (simp add: no_offset_def option.map_comp comp_def option.map_ident)
  ultimately show ?thesis by simp
qed

text \<open>With a parser that reads no offsets the two models of the cleaning agree.\<close>

lemma prepare_data_no_offset: "prepare_data_offsets (no_offset parse) df = prepare_data parse df"
  by (simp only: prepare_data_offsets_def prepare_data_def to_datetime_no_offset)

lemma bind_Inl: "bind (Inl e) f = Inl e"
  by (simp add: bind_def)

lemma filled_dropped:
  fixes df :: dataframe
  defines "d \<equiv> drop_missing ''title'' (fill_col ''journal'' (Text ''Unknown'')
                 (fill_col ''authors'' (Text ''Unknown'') (fill_col ''abstract'' (Text '''') df)))"
  shows "columns d = columns df"
    and "map (\<lambda>r. r ''publish_time'') (rows d) = kept_times df"
proof -
  show "columns d = columns df"
    by (simp add: d_def columns_drop_missing columns_fill_col)
  have "rows d = filter (has_title (columns df))
      (map (\<lambda>r. fill_row ''journal'' (Text ''Unknown'') (columns df)
             (fill_row ''authors'' (Text ''Unknown'') (columns df)
               (fill_row ''abstract'' (Text '''') (columns df) r))) (rows df))"
    by (simp add: d_def rows_drop_missing columns_fill_col rows_fill_col has_title_def [abs_def]
        comp_def)
  then show "map (\<lambda>r. r ''publish_time'') (rows d) = kept_times df"
    by (simp add: kept_times_def filter_map comp_def has_title_def [abs_def] fill_row_other)
qed

lemma year_step_uniform:
  assumes c: "''publish_time'' \<in> set (columns d)"
    and u: "length (parsed_offsets parse (map (\<lambda>r. r ''publish_time'') (rows d))) \<le> 1"
  shows "bind (getitem d ''publish_time'') (\<lambda>s.
         bind (setitem d ''publish_time'' (to_datetime_offsets parse s)) (\<lambda>d'.
         bind (getitem d' ''publish_time'') (\<lambda>t.
         bind (dt_year t) (\<lambda>ys. setitem d' ''publication_year'' ys))))
         = Inr (add_year (\<lambda>c. map_option fst (parse c)) d)"
proof -
  have g: "getitem d ''publish_time'' = Inr (map (\<lambda>r. r ''publish_time'') (rows d))"
    using c by (simp add: getitem_def)
  show ?thesis
    using year_step [of d "\<lambda>c. map_option fst (parse c)"] c
    by (simp add: g bind_Inr to_datetime_offsets_uniform [OF u])
qed

lemma some_parsed:
  "remdups (map snd (concat (map (\<lambda>p. case p of None \<Rightarrow> [] | Some v \<Rightarrow> [v]) ps))) \<noteq> [] \<Longrightarrow>
   \<exists>v. Some v \<in> set ps"
  by (induction ps) (auto split: option.splits)

lemma objects_not_datetimelike:
  assumes "\<exists>v. Some v \<in> set ps"
  shows "\<not> list_all is_datetimelike
           (map (\<lambda>p. case p of None \<Rightarrow> NaN | Some ((y, m, d), off) \<Rightarrow> Pydatetime y m d off) ps)"
proof -
  from assms obtain y m d off where "Some ((y, m, d), off) \<in> set ps" by auto
  then have "Pydatetime y m d off \<in>
      set (map (\<lambda>p. case p of None \<Rightarrow> NaN | Some ((y, m, d), off) \<Rightarrow> Pydatetime y m d off) ps)"
    by force
  then show ?thesis unfolding list_all_iff by (metis is_datetimelike.simps(5))
qed

lemma year_step_mixed:
  assumes c: "''publish_time'' \<in> set (columns d)"
    and u: "1 < length (parsed_offsets parse (map (\<lambda>r. r ''publish_time'') (rows d)))"
  shows "bind (getitem d ''publish_time'') (\<lambda>s.
         bind (setitem d ''publish_time'' (to_datetime_offsets parse s)) (\<lambda>d'.
         bind (getitem d' ''publish_time'') (\<lambda>t.
         bind (dt_year t) (\<lambda>ys. setitem d' ''publication_year'' ys))))
         = Inl AttributeError"
proof -
  let ?s = "map (\<lambda>r. r ''publish_time'') (rows d)"
  let ?parsed = "map (\<lambda>c. case c of NaN \<Rightarrow> None | Datetime y m d \<Rightarrow> Some ((y, m, d), None)
                        | _ \<Rightarrow> parse c) ?s"
  let ?obj = "map (\<lambda>p. case p of None \<Rightarrow> NaN | Some ((y, m, d), off) \<Rightarrow> Pydatetime y m d off) ?parsed"
  have g: "getitem d ''publish_time'' = Inr ?s"
    using c by (simp add: getitem_def)
  have t: "to_datetime_offsets parse ?s = ?obj"
    using u by (simp add: to_datetime_offsets_def parsed_offsets_def Let_def)
  let ?F = "\<lambda>r. case (case r ''publish_time'' of NaN \<Rightarrow> None
                            | Datetime y m d \<Rightarrow> Some ((y, m, d), None)
                            | _ \<Rightarrow> parse (r ''publish_time'')) of
                   None \<Rightarrow> NaN | Some ((y, m, d), off) \<Rightarrow> Pydatetime y m d off"
  have o: "?obj = map ?F (rows d)" by (simp add: comp_def)
  have s: "setitem d ''publish_time'' ?obj = Inr (add_column ''publish_time'' ?F d)"
    unfolding o by (rule setitem_map)
  have g': "getitem (add_column ''publish_time'' ?F d) ''publish_time'' = Inr ?obj"
    unfolding o using c by (simp add: getitem_def add_column_def comp_def)
  from u have "parsed_offsets parse ?s \<noteq> []" by auto
  then have "remdups (map snd (concat (map (\<lambda>p. case p of None \<Rightarrow> [] | Some v \<Rightarrow> [v])
               ?parsed))) \<noteq> []"
    unfolding parsed_offsets_def .
  then have "\<exists>v. Some v \<in> set ?parsed" by (rule some_parsed)
  then have "\<not> list_all is_datetimelike ?obj" by (rule objects_not_datetimelike)
  then have e: "dt_year ?obj = Inl AttributeError" by (simp add: dt_year_def)
  show ?thesis by (simp only: g bind_Inr t s g' e bind_Inl)
qed

text \<open>
  When the offsets read from the rows that reach the date step do not differ, the cleaning
  is the one of the parser without its offsets.
\<close>

lemma prepare_data_offsets_uniform:
  assumes "''publish_time'' \<in> set (columns df) \<longrightarrow>
           length (parsed_offsets parse (kept_times df)) \<le> 1"
  shows "prepare_data_offsets parse df = prepare_data (\<lambda>c. map_option fst (parse c)) df"
proof -
  let ?d = "drop_missing ''title'' (fill_col ''journal'' (Text ''Unknown'')
              (fill_col ''authors'' (Text ''Unknown'') (fill_col ''abstract'' (Text '''') df)))"
  have "(if ''publish_time'' \<in> set (columns ?d)
         then bind (getitem ?d ''publish_time'') (\<lambda>s.
              bind (setitem ?d ''publish_time'' (to_datetime_offsets parse s)) (\<lambda>d'.
              bind (getitem d' ''publish_time'') (\<lambda>t.
              bind (dt_year t) (\<lambda>ys. setitem d' ''publication_year'' ys))))
         else Inr ?d) = Inr (add_year (\<lambda>c. map_option fst (parse c)) ?d)"
  proof (cases "''publish_time'' \<in> set (columns ?d)")
    case True
    then have "''publish_time'' \<in> set (columns df)" by (simp only: filled_dropped(1))
    with assms have "length (parsed_offsets parse (map (\<lambda>r. r ''publish_time'') (rows ?d))) \<le> 1"
      by (simp only: filled_dropped(2))
    from year_step_uniform [OF True this] True show ?thesis by (simp only: if_True)
  next
    case False
    then show ?thesis by (simp add: add_year_def)
  qed
  then have "prepare_data_offsets parse df = Inr (cleaned (\<lambda>c. map_option fst (parse c)) df)"
    unfolding prepare_data_offsets_def cleaned_def
    by (simp only: fill_step drop_step count_step bind_Inr)
  then show ?thesis by (simp only: prepare_data_cleaned)
qed

text \<open>When they differ, the \<open>.dt\<close> accessor raises and nothing after it runs.\<close>

lemma prepare_data_offsets_mixed:
  assumes c: "''publish_time'' \<in> set (columns df)"
    and u: "1 < length (parsed_offsets parse (kept_times df))"
  shows "prepare_data_offsets parse df = Inl AttributeError"
proof -
  let ?d = "drop_missing ''title'' (fill_col ''journal'' (Text ''Unknown'')
              (fill_col ''authors'' (Text ''Unknown'') (fill_col ''abstract'' (Text '''') df)))"
  have c': "''publish_time'' \<in> set (columns ?d)" using c by (simp only: filled_dropped(1))
  have u': "1 < length (parsed_offsets parse (map (\<lambda>r. r ''publish_time'') (rows ?d)))"
    using u by (simp only: filled_dropped(2))
  have "(if ''publish_time'' \<in> set (columns ?d)
         then bind (getitem ?d ''publish_time'') (\<lambda>s.
              bind (setitem ?d ''publish_time'' (to_datetime_offsets parse s)) (\<lambda>d'.
              bind (getitem d' ''publish_time'') (\<lambda>t.
              bind (dt_year t) (\<lambda>ys. setitem d' ''publication_year'' ys))))
         else Inr ?d) = Inl AttributeError"
    using year_step_mixed [OF c' u'] c' by (simp only: if_True)
  then show ?thesis
    unfolding prepare_data_offsets_def
    by (simp only: fill_step drop_step bind_Inr bind_Inl)
qed

lemma example_mixed_times:
  "kept_times example_mixed =
   [Text ''2020-03-01T00:00:00+01:00'', Text ''2020-03-02T00:00:00+02:00'']"
  by (simp add: kept_times_def example_mixed_def has_title_def mk_row_def)

lemma example_mixed_offsets:
  "parsed_offsets example_offset_parse
     [Text ''2020-03-01T00:00:00+01:00'', Text ''2020-03-02T00:00:00+02:00''] = [Some 60, Some 120]"
  by (simp add: parsed_offsets_def example_offset_parse_def)

text \<open>
  Claim C5, at the table \<open>example_mixed\<close>: two titled rows whose \<open>publish_time\<close> values
  both parse, one with the UTC offset +01:00 and one with +02:00. \<open>to_datetime\<close> with
  \<open>errors='coerce'\<close> returns them as an object column, the \<open>.dt\<close> accessor of the next
  line raises \<open>AttributeError\<close>, and cleaning aborts instead of returning a table with a
  \<open>publication_year\<close> column.
\<close>

theorem mixed_offsets_abort_cleaning:
  "''publish_time'' \<in> set (columns example_mixed) \<and>
   to_datetime_offsets example_offset_parse
     [Text ''2020-03-01T00:00:00+01:00'', Text ''2020-03-02T00:00:00+02:00''] =
     [Pydatetime 2020 3 1 (Some 60), Pydatetime 2020 3 2 (Some 120)] \<and>
   dt_year [Pydatetime 2020 3 1 (Some 60), Pydatetime 2020 3 2 (Some 120)] = Inl AttributeError \<and>
   prepare_data_offsets example_offset_parse example_mixed = Inl AttributeError"
proof (intro conjI)
  show c: "''publish_time'' \<in> set (columns example_mixed)" by (simp add: example_mixed_def)
  show "to_datetime_offsets example_offset_parse
     [Text ''2020-03-01T00:00:00+01:00'', Text ''2020-03-02T00:00:00+02:00''] =
     [Pydatetime 2020 3 1 (Some 60), Pydatetime 2020 3 2 (Some 120)]"
    by (simp add: to_datetime_offsets_def example_offset_parse_def Let_def)
  show "dt_year [Pydatetime 2020 3 1 (Some 60), Pydatetime 2020 3 2 (Some 120)] = Inl AttributeError"
    by (simp add: dt_year_def)
  have "1 < length (parsed_offsets example_offset_parse (kept_times example_mixed))"
    by (simp only: example_mixed_times example_mixed_offsets) simp
  with c show "prepare_data_offsets example_offset_parse example_mixed = Inl AttributeError"
    by (rule prepare_data_offsets_mixed)
qed

subsection \<open>The export and its round trip\<close>

lemma bind_return: "bind m Inr = m"
  by (cases m) (simp_all add: bind_def)

lemma chars_distinct:
  "comma \<noteq> quote" "comma \<noteq> LF" "comma \<noteq> CR" "quote \<noteq> LF" "quote \<noteq> CR" "LF \<noteq> CR"
  "quote \<noteq> comma" "LF \<noteq> comma" "CR \<noteq> comma" "LF \<noteq> quote" "CR \<noteq> quote" "CR \<noteq> LF"
  "\<not> is_blank comma" "\<not> is_blank quote" "\<not> is_blank LF" "\<not> is_blank CR"
  by (simp_all add: comma_def quote_def LF_def CR_def is_blank_def)

lemma tokenize_plain:
  "tokenize st cur row (c # cs) = tokenize st' cur' row' cs"
  if "step st cur row c = (st', cur', row', None)"
  using that by (simp add: bind_return)

lemma tokenize_emit:
  "tokenize st cur row (c # cs) = emit r (tokenize st' cur' row' cs)"
  if "step st cur row c = (st', cur', row', Some r)"
  using that by (simp add: emit_def)

lemma in_field_plain: "plain c \<Longrightarrow> in_field cur row c = (InField, cur @ [c], row, None)"
  by (simp add: in_field_def plain_def)

lemma in_field_comma: "in_field cur row comma = (StartField, [], row @ [cur], None)"
  by (simp add: in_field_def chars_distinct)

lemma in_field_LF: "in_field cur row LF = (StartRecord, [], [], Some (row @ [cur]))"
  by (simp add: in_field_def)

lemma start_field_plain: "plain c \<Longrightarrow> start_field row c = (InField, [c], row, None)"
  by (simp add: start_field_def plain_def)

lemma start_field_comma: "start_field row comma = (StartField, [], row @ [[]], None)"
  by (simp add: start_field_def chars_distinct)

lemma start_field_LF: "start_field row LF = (StartRecord, [], [], Some (row @ [[]]))"
  by (simp add: start_field_def)

lemma start_field_quote: "start_field row quote = (InQuotedField, [], row, None)"
  by (simp add: start_field_def chars_distinct)

text \<open>An unquoted run of plain characters is added to the field.\<close>

lemma tokenize_in_field:
  "\<forall>c \<in> set f. plain c \<Longrightarrow>
   tokenize InField cur row (f @ rest) = tokenize InField (cur @ f) row rest"
proof (induction f arbitrary: cur)
  case Nil
  then show ?case by simp
next
  case (Cons c f)
  then have "tokenize InField cur row ((c # f) @ rest) = tokenize InField (cur @ [c]) row (f @ rest)"
    by (simp add: bind_return in_field_plain)
  with Cons show ?case by simp
qed

text \<open>The doubled content of a quoted field, up to and including the closing quote.\<close>

lemma tokenize_quoted:
  "tokenize InQuotedField cur row (double_quotes f @ quote # rest) =
   tokenize QuoteInQuotedField (cur @ f) row rest"
proof (induction f arbitrary: cur)
  case Nil
  then show ?case by (simp add: double_quotes_def bind_return)
next
  case (Cons c f)
  show ?case
  proof (cases "c = quote")
    case True
    have "tokenize InQuotedField cur row (double_quotes (c # f) @ quote # rest) =
          tokenize InQuotedField cur row (quote # quote # double_quotes f @ quote # rest)"
      using True by (simp add: double_quotes_def)
    also have "\<dots> = tokenize QuoteInQuotedField cur row (quote # double_quotes f @ quote # rest)"
      by (simp add: bind_return)
    also have "\<dots> = tokenize InQuotedField (cur @ [quote]) row (double_quotes f @ quote # rest)"
      by (simp add: bind_return)
    also have "\<dots> = tokenize QuoteInQuotedField ((cur @ [quote]) @ f) row rest"
      by (rule Cons.IH)
    finally show ?thesis using True by simp
  next
    case False
    have "tokenize InQuotedField cur row (double_quotes (c # f) @ quote # rest) =
          tokenize InQuotedField cur row (c # double_quotes f @ quote # rest)"
      using False by (simp add: double_quotes_def)
    also have "\<dots> = tokenize InQuotedField (cur @ [c]) row (double_quotes f @ quote # rest)"
      using False by (simp add: bind_return)
    also have "\<dots> = tokenize QuoteInQuotedField ((cur @ [c]) @ f) row rest"
      by (rule Cons.IH)
    finally show ?thesis by simp
  qed
qed

lemma plain_unquoted: "\<not> needs_quotes f \<Longrightarrow> \<forall>c \<in> set f. plain c"
  by (auto simp: needs_quotes_def plain_def)

text \<open>A written field followed by a comma, and followed by the end of the line.\<close>

lemma tokenize_field_comma:
  "tokenize StartField [] row (write_field f @ comma # rest) =
   tokenize StartField [] (row @ [f]) rest"
proof (cases "needs_quotes f")
  case True
  then have "tokenize StartField [] row (write_field f @ comma # rest) =
        tokenize StartField [] row (quote # double_quotes f @ quote # comma # rest)"
    by (simp add: write_field_def)
  also have "\<dots> = tokenize InQuotedField [] row (double_quotes f @ quote # comma # rest)"
    by (simp add: bind_return start_field_quote)
  also have "\<dots> = tokenize QuoteInQuotedField f row (comma # rest)"
    using tokenize_quoted [of "[]" row f "comma # rest"] by simp
  also have "\<dots> = tokenize StartField [] (row @ [f]) rest"
    by (simp add: bind_return chars_distinct in_field_comma)
  finally show ?thesis .
next
  case False
  note p = plain_unquoted [OF False]
  show ?thesis
  proof (cases f)
    case Nil
    then show ?thesis using False
      by (simp add: write_field_def bind_return start_field_comma)
  next
    case (Cons c f')
    with p have c: "plain c" and f': "\<forall>c \<in> set f'. plain c" by simp_all
    have "tokenize StartField [] row (write_field f @ comma # rest) =
          tokenize StartField [] row (c # f' @ comma # rest)"
      using False Cons by (simp add: write_field_def)
    also have "\<dots> = tokenize InField [c] row (f' @ comma # rest)"
      using c by (simp add: bind_return start_field_plain)
    also have "\<dots> = tokenize InField ([c] @ f') row (comma # rest)"
      by (rule tokenize_in_field [OF f'])
    also have "\<dots> = tokenize StartField [] (row @ [f]) rest"
      using Cons by (simp add: bind_return in_field_comma)
    finally show ?thesis .
  qed
qed

lemma tokenize_field_LF:
  "tokenize StartField [] row (write_field f @ LF # rest) =
   emit (row @ [f]) (tokenize StartRecord [] [] rest)"
proof (cases "needs_quotes f")
  case True
  then have "tokenize StartField [] row (write_field f @ LF # rest) =
        tokenize StartField [] row (quote # double_quotes f @ quote # LF # rest)"
    by (simp add: write_field_def)
  also have "\<dots> = tokenize InQuotedField [] row (double_quotes f @ quote # LF # rest)"
    by (simp add: bind_return start_field_quote)
  also have "\<dots> = tokenize QuoteInQuotedField f row (LF # rest)"
    using tokenize_quoted [of "[]" row f "LF # rest"] by simp
  also have "\<dots> = emit (row @ [f]) (tokenize StartRecord [] [] rest)"
    by (rule tokenize_emit) (simp add: chars_distinct in_field_LF)
  finally show ?thesis .
next
  case False
  note p = plain_unquoted [OF False]
  show ?thesis
  proof (cases f)
    case Nil
    have "tokenize StartField [] row (LF # rest) = emit (row @ [[]]) (tokenize StartRecord [] [] rest)"
      by (rule tokenize_emit) (simp add: start_field_LF)
    then show ?thesis using False Nil by (simp add: write_field_def)
  next
    case (Cons c f')
    with p have c: "plain c" and f': "\<forall>c \<in> set f'. plain c" by simp_all
    have "tokenize StartField [] row (write_field f @ LF # rest) =
          tokenize StartField [] row (c # f' @ LF # rest)"
      using False Cons by (simp add: write_field_def)
    also have "\<dots> = tokenize InField [c] row (f' @ LF # rest)"
      using c by (simp add: bind_return start_field_plain)
    also have "\<dots> = tokenize InField ([c] @ f') row (LF # rest)"
      by (rule tokenize_in_field [OF f'])
    also have "\<dots> = emit (row @ [f]) (tokenize StartRecord [] [] rest)"
      using Cons by (intro tokenize_emit) (simp add: in_field_LF)
    finally show ?thesis .
  qed
qed

text \<open>The fields of a record, from the start of a field to the end of the line.\<close>

lemma tokenize_fields:
  "fs \<noteq> [] \<Longrightarrow>
   tokenize StartField [] row (join [comma] (map write_field fs) @ LF # rest) =
   emit (row @ fs) (tokenize StartRecord [] [] rest)"
proof (induction fs arbitrary: row)
  case Nil
  then show ?case by simp
next
  case (Cons f fs)
  show ?case
  proof (cases fs)
    case Nil
    then show ?thesis by (simp add: tokenize_field_LF)
  next
    case (Cons g gs)
    then have "join [comma] (map write_field (f # fs)) @ LF # rest =
               write_field f @ comma # (join [comma] (map write_field fs) @ LF # rest)"
      by simp
    then have "tokenize StartField [] row (join [comma] (map write_field (f # fs)) @ LF # rest) =
          tokenize StartField [] (row @ [f]) (join [comma] (map write_field fs) @ LF # rest)"
      by (simp only: tokenize_field_comma)
    also have "\<dots> = emit ((row @ [f]) @ fs) (tokenize StartRecord [] [] rest)"
      using Cons by (intro Cons.IH) simp
    finally show ?thesis by simp
  qed
qed

lemma tokenize_start_plain:
  assumes "plain c" "\<forall>x \<in> set f. plain x"
  shows "tokenize StartField [] row (c # f @ rest) = tokenize InField (c # f) row rest"
proof -
  have "tokenize StartField [] row (c # f @ rest) = tokenize InField [c] row (f @ rest)"
    using assms(1) by (simp add: bind_return start_field_plain)
  also have "\<dots> = tokenize InField ([c] @ f) row rest"
    by (rule tokenize_in_field [OF assms(2)])
  finally show ?thesis by simp
qed

text \<open>At the start of a record, a character that is not a blank or a line break starts a field.\<close>

lemma tokenize_start_record:
  assumes "c \<noteq> LF" "c \<noteq> CR" "\<not> is_blank c"
  shows "tokenize StartRecord [] [] (c # rest) = tokenize StartField [] [] (c # rest)"
  using assms by (simp add: start_record_def)

text \<open>
  Leading blanks are kept as the start of the field once the line turns out not to be
  blank: at a comma, or at a line end after some other character.
\<close>

lemma tokenize_whitespace_line:
  assumes "\<forall>x \<in> set f. plain x"
    and "sep = comma \<or> (sep = LF \<and> (\<exists>x \<in> set f. \<not> is_blank x))"
  shows "tokenize WhitespaceLine cur [] (f @ sep # rest) = tokenize InField (cur @ f) [] (sep # rest)"
  using assms
proof (induction f arbitrary: cur)
  case Nil
  then have "sep = comma" by simp
  then show ?case by (simp add: chars_distinct)
next
  case (Cons x f)
  then have x: "plain x" and f: "\<forall>x \<in> set f. plain x" by simp_all
  from x have n: "x \<noteq> LF" "x \<noteq> CR" by (simp_all add: plain_def)
  show ?case
  proof (cases "is_blank x")
    case True
    with Cons.prems(2) have "sep = comma \<or> (sep = LF \<and> (\<exists>x \<in> set f. \<not> is_blank x))" by auto
    from Cons.IH [OF f this, of "cur @ [x]"] True n show ?thesis
      by (simp add: bind_return)
  next
    case False
    have "tokenize WhitespaceLine cur [] ((x # f) @ sep # rest) =
          tokenize InField (cur @ [x]) [] (f @ sep # rest)"
      using False n x by (simp add: bind_return in_field_plain)
    also have "\<dots> = tokenize InField ((cur @ [x]) @ f) [] (sep # rest)"
      by (rule tokenize_in_field [OF f])
    finally show ?thesis by simp
  qed
qed

lemma tokenize_leading_blank:
  assumes "plain c" "is_blank c" "\<forall>x \<in> set f. plain x"
    and "sep = comma \<or> (sep = LF \<and> (\<exists>x \<in> set f. \<not> is_blank x))"
  shows "tokenize StartRecord [] [] (c # f @ sep # rest) =
         tokenize StartField [] [] (c # f @ sep # rest)"
proof -
  from assms(1) have n: "c \<noteq> LF" "c \<noteq> CR" by (simp_all add: plain_def)
  have "tokenize StartRecord [] [] (c # f @ sep # rest) =
        tokenize WhitespaceLine [c] [] (f @ sep # rest)"
    using n assms(2) by (simp add: start_record_def bind_return)
  also have "\<dots> = tokenize InField ([c] @ f) [] (sep # rest)"
    by (rule tokenize_whitespace_line [OF assms(3,4)])
  also have "\<dots> = tokenize StartField [] [] (c # f @ (sep # rest))"
    using tokenize_start_plain [OF assms(1,3), of "[]" "sep # rest"] by simp
  finally show ?thesis by simp
qed

text \<open>What the writer puts after the first field of a record.\<close>

lemma writerow_split:
  "fs = f # gs \<Longrightarrow> fs \<noteq> [[]] \<Longrightarrow>
   writerow fs @ rest =
   write_field f @ (if gs = [] then LF else comma) #
     (if gs = [] then rest else join [comma] (map write_field gs) @ LF # rest)"
  by (cases gs) (simp_all add: writerow_def)

lemma writerow_join:
  "fs \<noteq> [[]] \<Longrightarrow> writerow fs @ rest = join [comma] (map write_field fs) @ LF # rest"
  by (simp add: writerow_def)

text \<open>A written record is read back as that record, unless it is a lone field of blanks.\<close>

lemma tokenize_record:
  assumes ne: "fs \<noteq> []" and nb: "\<not> (\<exists>f. fs = [f] \<and> blank_text f)"
  shows "tokenize StartRecord [] [] (writerow fs @ rest) =
         emit fs (tokenize StartRecord [] [] rest)"
proof (cases "fs = [[]]")
  case True
  have "tokenize StartRecord [] [] (quote # quote # LF # rest) =
        emit [[]] (tokenize StartRecord [] [] rest)"
    by (simp add: start_record_def start_field_quote chars_distinct in_field_LF emit_def bind_return)
  with True show ?thesis by (simp add: writerow_def)
next
  case False
  from ne obtain f gs where fs: "fs = f # gs" by (cases fs) auto
  let ?sep = "if gs = [] then LF else comma"
  let ?tail = "if gs = [] then rest else join [comma] (map write_field gs) @ LF # rest"
  have w: "writerow fs @ rest = write_field f @ ?sep # ?tail"
    by (rule writerow_split [OF fs False])
  have "tokenize StartRecord [] [] (write_field f @ ?sep # ?tail) =
        tokenize StartField [] [] (write_field f @ ?sep # ?tail)"
  proof (cases "needs_quotes f")
    case True
    then have "write_field f @ ?sep # ?tail = quote # (double_quotes f @ quote # ?sep # ?tail)"
      by (simp add: write_field_def)
    then show ?thesis
      by (simp only: tokenize_start_record [OF chars_distinct(4) chars_distinct(5)
            chars_distinct(14)])
  next
    case nq: False
    note p = plain_unquoted [OF nq]
    show ?thesis
    proof (cases f)
      case Nil
      with fs False have "gs \<noteq> []" by auto
      then have "write_field f @ ?sep # ?tail = comma # ?tail"
        using Nil nq by (simp add: write_field_def)
      then show ?thesis
        by (simp only: tokenize_start_record [OF chars_distinct(2) chars_distinct(3)
              chars_distinct(13)])
    next
      case (Cons c f')
      with p have c: "plain c" and f': "\<forall>x \<in> set f'. plain x" by simp_all
      have t: "write_field f @ ?sep # ?tail = c # f' @ ?sep # ?tail"
        using Cons nq by (simp add: write_field_def)
      show ?thesis
      proof (cases "is_blank c")
        case True
        have "?sep = comma \<or> (?sep = LF \<and> (\<exists>x \<in> set f'. \<not> is_blank x))"
        proof (cases "gs = []")
          case True
          with fs nb have "\<not> blank_text f" by simp
          with Cons \<open>is_blank c\<close> have "\<exists>x \<in> set f'. \<not> is_blank x"
            by (auto simp: blank_text_def list_all_iff)
          with True show ?thesis by simp
        next
          case False
          then show ?thesis by simp
        qed
        from tokenize_leading_blank [OF c True f' this] show ?thesis by (simp only: t)
      next
        case False
        from c have "c \<noteq> LF" "c \<noteq> CR" by (simp_all add: plain_def)
        from tokenize_start_record [OF this False] show ?thesis by (simp only: t)
      qed
    qed
  qed
  also have "\<dots> = tokenize StartField [] [] (join [comma] (map write_field fs) @ LF # rest)"
    by (simp only: w [symmetric] writerow_join [OF False])
  also have "\<dots> = emit ([] @ fs) (tokenize StartRecord [] [] rest)"
    by (rule tokenize_fields [OF ne])
  finally show ?thesis by (simp add: w)
qed

lemma tokenize_records:
  assumes "\<forall>fs \<in> set recs. fs \<noteq> [] \<and> \<not> (\<exists>f. fs = [f] \<and> blank_text f)"
  shows "tokenize StartRecord [] [] (concat (map writerow recs)) = Inr recs"
  using assms
proof (induction recs)
  case Nil
  show ?case by simp
next
  case (Cons fs recs)
  then have a: "fs \<noteq> []" and b: "\<not> (\<exists>f. fs = [f] \<and> blank_text f)"
    and r: "tokenize StartRecord [] [] (concat (map writerow recs)) = Inr recs"
    by simp_all
  have "tokenize StartRecord [] [] (writerow fs @ concat (map writerow recs)) =
        emit fs (tokenize StartRecord [] [] (concat (map writerow recs)))"
    by (rule tokenize_record [OF a b])
  then show ?case by (simp add: r emit_def bind_Inr)
qed

text \<open>
  Reading back what \<open>to_csv\<close> wrote gives the same labels and one row per row, for a
  table with a column, unless it has one column only and its label or a cell is blank.
\<close>

lemma read_csv_to_csv:
  assumes c: "columns d \<noteq> []"
    and h: "\<not> (\<exists>f. columns d = [f] \<and> blank_text f)"
    and b: "\<forall>r \<in> set (rows d). \<forall>c. columns d = [c] \<longrightarrow> \<not> blank_text (csv_field (r c))"
  shows "read_csv (to_csv d) =
         Inr \<lparr>columns = columns d,
              rows = map (\<lambda>r. read_row (columns d) (map (\<lambda>c. csv_field (r c)) (columns d)))
                       (rows d)\<rparr>"
proof -
  let ?body = "map (\<lambda>r. map (\<lambda>c. csv_field (r c)) (columns d)) (rows d)"
  have "\<forall>fs \<in> set ?body. fs \<noteq> [] \<and> \<not> (\<exists>f. fs = [f] \<and> blank_text f)"
  proof
    fix fs assume "fs \<in> set ?body"
    then obtain r where r: "r \<in> set (rows d)" and fs: "fs = map (\<lambda>c. csv_field (r c)) (columns d)"
      by auto
    have "fs \<noteq> []" using c fs by simp
    moreover have "\<not> (\<exists>f. fs = [f] \<and> blank_text f)"
    proof
      assume "\<exists>f. fs = [f] \<and> blank_text f"
      then obtain f where f: "fs = [f]" "blank_text f" by auto
      from f(1) fs obtain x where x: "columns d = [x]" by (cases "columns d") auto
      with f fs have "f = csv_field (r x)" by simp
      with b r x f(2) show False by auto
    qed
    ultimately show "fs \<noteq> [] \<and> \<not> (\<exists>f. fs = [f] \<and> blank_text f)" ..
  qed
  with c h have "\<forall>fs \<in> set (columns d # ?body). fs \<noteq> [] \<and> \<not> (\<exists>f. fs = [f] \<and> blank_text f)"
    by simp
  then have t: "tokenize StartRecord [] [] (to_csv d) = Inr (columns d # ?body)"
    unfolding to_csv_def by (rule tokenize_records)
  have l: "list_all (\<lambda>fs. length fs \<le> length (columns d)) ?body"
    by (simp add: list_all_iff)
  show ?thesis
    unfolding read_csv_def by (simp only: t bind_Inr list.case l if_True map_map o_def)
qed

lemma getitems_display_cols:
  "getitems df (display_cols df) = Inr \<lparr>columns = display_cols df, rows = rows df\<rparr>"
  by (auto simp: getitems_def display_cols_def)

lemma display_cols_not_blank: "\<not> (\<exists>f. display_cols df = [f] \<and> blank_text f)"
proof
  assume "\<exists>f. display_cols df = [f] \<and> blank_text f"
  then obtain f where f: "display_cols df = [f]" "blank_text f" by auto
  then have "f \<in> set (display_cols df)" by simp
  then have "f \<in> set available_cols" by (simp add: display_cols_def)
  then have "\<not> is_blank (hd f)"
    by (auto simp: available_cols_def is_blank_def)
  with f(2) show False by (cases f) (simp_all add: blank_text_def)
qed

text \<open>
  The export of a table, saved as \<open>metadata.csv\<close> and loaded again: the rows are as many
  as before and the columns are the display columns.
\<close>

lemma round_trip_display:
  assumes "display_cols df \<noteq> []"
    and "\<forall>r \<in> set (rows df). \<forall>c. display_cols df = [c] \<longrightarrow> \<not> blank_text (csv_field (r c))"
  shows "round_trip_shape df = Inr (Some (length (rows df), display_cols df))"
proof -
  let ?d = "\<lparr>columns = display_cols df, rows = rows df\<rparr>"
  have c: "columns ?d \<noteq> []" using assms(1) by simp
  have h: "\<not> (\<exists>f. columns ?d = [f] \<and> blank_text f)"
    using display_cols_not_blank [of df] by simp
  have b: "\<forall>r \<in> set (rows ?d). \<forall>c. columns ?d = [c] \<longrightarrow> \<not> blank_text (csv_field (r c))"
    using assms(2) by simp
  note r = read_csv_to_csv [OF c h b]
  have d: "download_csv df = Inr (to_csv ?d)"
    by (simp add: download_csv_def getitems_display_cols bind_Inr)
  have "round_trip df = bind (read_csv (to_csv ?d)) (\<lambda>t. Inr (Some t))"
    unfolding round_trip_def load_data_def by (simp add: d bind_Inr)
  then show ?thesis
    unfolding round_trip_shape_def by (simp add: r bind_Inr shape_def)
qed

lemma set_display_cols: "set (display_cols df) = set (columns df) \<inter> set available_cols"
  by (auto simp: display_cols_def)

lemma filtered_view_numeric:
  assumes "''publication_year'' \<in> set (columns df)"
    and "\<forall>r \<in> set (rows df). r ''publication_year'' = NaN \<or> is_number (r ''publication_year'')"
  shows "filtered_view lo hi [] df =
         Inr \<lparr>columns = columns df,
              rows = filter (\<lambda>r. in_year_range lo hi (r ''publication_year'')) (rows df)\<rparr>"
  by (simp add: filtered_view_def year_filter_numeric [OF assms] bind_Inr journal_filter_none)

lemma columns_cleaned_example_gap:
  "columns (cleaned example_parse example_gap) =
   [''title'', ''journal'', ''publish_time'', ''publication_year'', ''title_word_count'']"
  by (simp add: cleaned_def add_count_def add_year_def add_column_def drop_missing_def
      fill_col_def example_gap_def)

lemma columns_cleaned_example_raw:
  "columns (cleaned example_parse example_raw) =
   [''title'', ''abstract'', ''authors'', ''journal'', ''publish_time'', ''publication_year'',
    ''abstract_word_count'', ''title_word_count'']"
  by (simp add: cleaned_def add_count_def add_year_def add_column_def drop_missing_def
      fill_col_def example_raw_def)

text \<open>
  A one-column export with a cell of blanks: the line of that row is skipped by the
  reader, so the reloaded table has a row less.
\<close>

lemma blank_row_lost:
  "display_cols example_blank = [''journal''] \<and>
   length (rows example_blank) = 1 \<and>
   download_csv example_blank = Inr (''journal'' @ [LF] @ '' '' @ [LF]) \<and>
   round_trip_shape example_blank = Inr (Some (0, [''journal'']))"
proof -
  have d: "display_cols example_blank = [''journal'']"
    by (simp add: display_cols_def example_blank_def available_cols_def)
  have l: "length (rows example_blank) = 1" by (simp add: example_blank_def)
  have n: "\<not> needs_quotes ''journal''" "\<not> needs_quotes '' ''"
    by (simp_all add: needs_quotes_def comma_def quote_def LF_def CR_def)
  have g: "getitems example_blank (display_cols example_blank) =
           Inr \<lparr>columns = [''journal''], rows = rows example_blank\<rparr>"
    using getitems_display_cols [of example_blank] unfolding d .
  have w: "download_csv example_blank = Inr (''journal'' @ [LF] @ '' '' @ [LF])"
    unfolding download_csv_def g
    by (simp add: bind_Inr to_csv_def writerow_def write_field_def n example_blank_def
        mk_row_def)
  have h: "writerow [''journal''] = ''journal'' @ [LF]"
    by (simp add: writerow_def write_field_def n)
  have b: "tokenize StartRecord [] [] ('' '' @ [LF]) = Inr []"
    by (simp add: start_record_def is_blank_def LF_def CR_def bind_Inr)
  have "tokenize StartRecord [] [] (writerow [''journal''] @ '' '' @ [LF]) =
        emit [''journal''] (tokenize StartRecord [] [] ('' '' @ [LF]))"
    by (rule tokenize_record) (simp_all add: blank_text_def is_blank_def)
  then have t: "tokenize StartRecord [] [] (''journal'' @ [LF] @ '' '' @ [LF]) = Inr [[''journal'']]"
    unfolding h b by (simp add: emit_def bind_Inr)
  have rc: "read_csv (''journal'' @ [LF] @ '' '' @ [LF]) = Inr \<lparr>columns = [''journal''], rows = []\<rparr>"
    unfolding read_csv_def t by (simp add: bind_Inr)
  have r: "round_trip_shape example_blank = Inr (Some (0, [''journal'']))"
    unfolding round_trip_shape_def round_trip_def load_data_def w
    by (simp only: simp_thms if_True option.simps rc bind_Inr) (simp add: shape_def)
  show ?thesis by (intro conjI) (rule d l w r)+
qed

text \<open>
  Claim C8, as stated, at the table \<open>example_gap\<close> with both years in the slider range:
  the view has two rows and five columns; the table loaded from its export has two rows
  and three columns, without \<open>publish_time\<close> and \<open>title_word_count\<close>.
\<close>

theorem export_drops_columns:
  "prepare_data example_parse example_gap = Inr (cleaned example_parse example_gap) \<and>
   bind (filtered_view 2018 2020 [] (cleaned example_parse example_gap)) (Inr \<circ> shape) =
     Inr (2, [''title'', ''journal'', ''publish_time'', ''publication_year'', ''title_word_count'']) \<and>
   bind (filtered_view 2018 2020 [] (cleaned example_parse example_gap)) round_trip_shape =
     Inr (Some (2, [''title'', ''journal'', ''publication_year'']))"
proof -
  let ?c = "cleaned example_parse example_gap"
  let ?v = "\<lparr>columns = columns ?c,
             rows = filter (\<lambda>r. in_year_range 2018 2020 (r ''publication_year'')) (rows ?c)\<rparr>"
  have p: "''publish_time'' \<in> set (columns example_gap)" by (simp add: example_gap_def)
  have h1: "''publication_year'' \<in> set (columns ?c)"
    using p by (simp add: mem_columns_cleaned)
  have h2: "\<forall>r \<in> set (rows ?c). r ''publication_year'' = NaN \<or> is_number (r ''publication_year'')"
    by (rule cleaned_year_numeric [OF p])
  have v: "filtered_view 2018 2020 [] ?c = Inr ?v"
    by (rule filtered_view_numeric [OF h1 h2])
  have n: "length (rows ?v) = 2"
    by (simp add: rows_cleaned example_gap_kept clean_row_year [OF p] coerce_date_def
        example_parse_def mk_row_def in_year_range_def)
  have s: "shape ?v = (2, [''title'', ''journal'', ''publish_time'', ''publication_year'',
                        ''title_word_count''])"
    unfolding shape_def n by (simp add: columns_cleaned_example_gap)
  have d: "display_cols ?v = [''title'', ''journal'', ''publication_year'']"
    by (simp add: display_cols_def columns_cleaned_example_gap available_cols_def)
  have r: "round_trip_shape ?v = Inr (Some (length (rows ?v), display_cols ?v))"
    by (rule round_trip_display) (simp_all only: d list.simps simp_thms ball_triv)
  have r': "round_trip_shape ?v = Inr (Some (2, [''title'', ''journal'', ''publication_year'']))"
    using r unfolding n d .
  have s': "bind (filtered_view 2018 2020 [] ?c) (Inr \<circ> shape) =
     Inr (2, [''title'', ''journal'', ''publish_time'', ''publication_year'', ''title_word_count''])"
    unfolding v bind_Inr o_def by (rule arg_cong [OF s])
  have r'': "bind (filtered_view 2018 2020 [] ?c) round_trip_shape =
     Inr (Some (2, [''title'', ''journal'', ''publication_year'']))"
    unfolding v bind_Inr by (rule r')
  show ?thesis by (intro conjI) (rule prepare_data_cleaned s' r'')+
qed

text \<open>
  Claim C8, amended. The export holds the display columns, which are the columns of the
  view among \<open>title\<close>, \<open>abstract\<close>, \<open>authors\<close>, \<open>journal\<close>, \<open>publication_year\<close> and
  \<open>abstract_word_count\<close>, in that order. For every table, and so for every filtered view,
  with at least one of them: writing the export, saving it as \<open>metadata.csv\<close> and loading
  it returns a table with as many rows as the view and with the display columns as its
  columns, unless the export has one column only and a cell of it is a text of blanks.
\<close>

theorem export_round_trip:
  assumes "display_cols v \<noteq> []"
    and "\<forall>r \<in> set (rows v). \<forall>c. display_cols v = [c] \<longrightarrow> \<not> blank_text (csv_field (r c))"
  shows "round_trip_shape v = Inr (Some (length (rows v), display_cols v)) \<and>
         set (display_cols v) = set (columns v) \<inter> set available_cols"
  using round_trip_display [OF assms] set_display_cols [of v] by (rule conjI)

theorem export_round_trip_witness:
  "\<exists>c v. prepare_data example_parse example_raw = Inr c \<and>
         filtered_view 0 9999 [] c = Inr v \<and>
         display_cols v = [''title'', ''abstract'', ''authors'', ''journal'', ''publication_year'',
                           ''abstract_word_count''] \<and>
         round_trip_shape v =
           Inr (Some (1, [''title'', ''abstract'', ''authors'', ''journal'', ''publication_year'',
                          ''abstract_word_count'']))"
proof -
  let ?c = "cleaned example_parse example_raw"
  let ?v = "\<lparr>columns = columns ?c,
             rows = filter (\<lambda>r. in_year_range 0 9999 (r ''publication_year'')) (rows ?c)\<rparr>"
  have p: "''publish_time'' \<in> set (columns example_raw)" by (simp add: example_raw_def)
  have h1: "''publication_year'' \<in> set (columns ?c)"
    using p by (simp add: mem_columns_cleaned)
  have h2: "\<forall>r \<in> set (rows ?c). r ''publication_year'' = NaN \<or> is_number (r ''publication_year'')"
    by (rule cleaned_year_numeric [OF p])
  have v: "filtered_view 0 9999 [] ?c = Inr ?v"
    by (rule filtered_view_numeric [OF h1 h2])
  have n: "length (rows ?v) = 1"
    by (simp add: rows_cleaned example_kept clean_row_year [OF p] coerce_date_def
        example_parse_def mk_row_def in_year_range_def)
  have d: "display_cols ?v = [''title'', ''abstract'', ''authors'', ''journal'', ''publication_year'',
                           ''abstract_word_count'']"
    by (simp add: display_cols_def columns_cleaned_example_raw available_cols_def)
  have a1: "display_cols ?v \<noteq> []" unfolding d by simp
  have a2: "\<forall>r \<in> set (rows ?v). \<forall>c. display_cols ?v = [c] \<longrightarrow> \<not> blank_text (csv_field (r c))"
    unfolding d by simp
  have r: "round_trip_shape ?v = Inr (Some (length (rows ?v), display_cols ?v))"
    using export_round_trip [OF a1 a2] by (rule conjunct1)
  have r': "round_trip_shape ?v =
           Inr (Some (1, [''title'', ''abstract'', ''authors'', ''journal'', ''publication_year'',
                          ''abstract_word_count'']))"
    using r unfolding n d .
  show ?thesis by (intro exI [of _ ?c] exI [of _ ?v] conjI) (rule prepare_data_cleaned v d r')+
qed

end
